theory Spec2Isabelle
  imports Main "HOL-Library.Word"
begin

section \<open>The uploads agent (server/libs/uploads-agent.js)\<close>

text \<open>
  The agent catalogues the files below an uploads directory. Everything it touches
  outside its own code is state of a \<open>world\<close>: the file system, the two catalogue
  collections, the history of commits, the log, and the module's own fields. Every
  rejection or exception of the source is a value \<open>Inl err\<close>.
\<close>

subsection \<open>Data\<close>

type_synonym buffer = "8 word list"

text \<open>What \<open>image-size\<close> reports for an image.\<close>

record imgsize =
  width :: nat
  height :: nat

text \<open>
  A regular file, as far as the agent observes it: the size \<open>stat\<close> reports, its
  leading bytes (\<open>None\<close> when the file cannot be read) and the dimensions
  \<open>image-size\<close> finds in it (\<open>None\<close> when it rejects). A directory has its
  listing (\<open>None\<close> when it cannot be listed); \<open>Special\<close> is any other entry.
\<close>

record file_node =
  f_size :: nat
  f_head :: "buffer option"
  f_dims :: "imgsize option"

datatype node = RegFile file_node | Directory "string list option" | Special

datatype error =
    FsError string
  | ImageSizeError string
  | JimpError string
  | TypeError
  | StoreError

record stats =
  isFile :: bool
  isDirectory :: bool
  st_size :: nat

text \<open>The object \<open>processFile\<close> builds (\<open>mData\<close>); \<open>doc_id\<close> is its \<open>_id\<close>.\<close>

record file_rec =
  doc_id :: string
  category :: string
  mime :: string
  extra :: "imgsize option"
  folder :: string
  filename :: string
  basename :: string
  filesize :: nat

record folder_rec =
  fld_id :: string
  fld_name :: string

text \<open>
  What \<open>processFile\<close> resolves to: the record, \<open>false\<close> for an entry that is not a
  regular file, or the value of \<open>winston.error(...)\<close> from its catch block, which
  is \<open>undefined\<close> (a logging call yields no value).
\<close>

datatype result = Rec file_rec | JFalse | JUndefined

datatype log_entry = LInfo string | LError string "error option"

datatype outcome = Resolved | Rejected error

record watcher_opts =
  persistent :: bool
  ignoreInitial :: bool
  cwd :: string
  depth :: nat
  awaitWriteFinish :: bool

text \<open>
  The libraries the agent calls and whose code is not the agent's: \<open>path.join\<close>,
  the MD5 digest in hex, \<open>file-type\<close> (the \<open>mime\<close> of the type it detects),
  \<open>mime.lookup\<close> (\<open>None\<close> for \<open>false\<close>), and what the catalogue store does with
  an upsert whose arguments are not an identifier and a record.
\<close>

record libs =
  path_join :: "string \<Rightarrow> string \<Rightarrow> string"
  md5_hex :: "string \<Rightarrow> string"
  fileType :: "buffer \<Rightarrow> string option"
  mime_lookup :: "string \<Rightarrow> string option"
  malformed_upsert :: "file_rec list \<Rightarrow> error + file_rec list"

text \<open>
  The world. \<open>uploadsPath\<close>, \<open>uploadsThumbsPath\<close> and \<open>watcher\<close> are the module's
  fields \<open>_uploadsPath\<close>, \<open>_uploadsThumbsPath\<close> and \<open>_watcher\<close>; \<open>jimp\<close> gives,
  for a source path, the file \<open>jimp\<close> writes as its thumbnail (\<open>None\<close> when it
  cannot decode the source); \<open>commits\<close> are the calls of \<open>git.commitUploads\<close>,
  each with the message key and the path; \<open>thumb_calls\<close> records the calls of
  \<open>generateThumbnail\<close>.
\<close>

record world =
  uploadsPath :: string
  uploadsThumbsPath :: string
  watcher :: "watcher_opts option"
  fs :: "string \<rightharpoonup> node"
  jimp :: "string \<rightharpoonup> file_node"
  UplFile :: "file_rec list"
  UplFolder :: "folder_rec list"
  commits :: "(string \<times> string) list"
  logs :: "log_entry list"
  thumb_calls :: "(string \<times> string) list"

subsection \<open>Logging\<close>

definition info :: "string \<Rightarrow> world \<Rightarrow> world" where
  "info msg w = w\<lparr>logs := logs w @ [LInfo msg]\<rparr>"

definition log_error :: "string \<Rightarrow> error option \<Rightarrow> world \<Rightarrow> world" where
  "log_error msg err w = w\<lparr>logs := logs w @ [LError msg err]\<rparr>"

text \<open>A number inside a template string.\<close>

fun show_nat :: "nat \<Rightarrow> string" where
  "show_nat n =
     (if n < 10 then [''0123456789'' ! n]
      else show_nat (n div 10) @ [''0123456789'' ! (n mod 10)])"

declare show_nat.simps [simp del]

definition dquote :: string where
  "dquote = [CHR 0x22]"

subsection \<open>Paths: \<open>path.parse\<close> and \<open>path.format\<close> (POSIX)\<close>

record parsed =
  root :: string
  dir :: string
  base :: string
  ext :: string
  name :: string

record pstate =
  startDot :: int
  startPart :: int
  endp :: int
  matchedSlash :: bool
  preDotState :: int

text \<open>\<open>String.prototype.slice\<close> for indices within the string.\<close>

definition slice :: "string \<Rightarrow> int \<Rightarrow> int \<Rightarrow> string" where
  "slice s a b = take (nat (b - a)) (drop (nat a) s)"

text \<open>
  The backward scan of \<open>path.parse\<close>: \<open>parse_loop path start k st\<close> runs the loop
  body for \<open>i = k - 1\<close> down to \<open>start\<close>. A separator met after a name character
  ends the scan (\<open>break\<close>); one met before is skipped (\<open>continue\<close>).
\<close>

fun parse_loop :: "string \<Rightarrow> nat \<Rightarrow> nat \<Rightarrow> pstate \<Rightarrow> pstate" where
  "parse_loop path start 0 st = st"
| "parse_loop path start (Suc i) st =
     (if i < start then st
      else if path ! i = CHR ''/'' then
        (if \<not> matchedSlash st then st\<lparr>startPart := int i + 1\<rparr>
         else parse_loop path start i st)
      else
        (let st1 = (if endp st = -1 then st\<lparr>endp := int i + 1, matchedSlash := False\<rparr> else st);
             st2 = (if path ! i = CHR ''.'' then
                      (if startDot st1 = -1 then st1\<lparr>startDot := int i\<rparr>
                       else if preDotState st1 \<noteq> 1 then st1\<lparr>preDotState := 1\<rparr>
                       else st1)
                    else if startDot st1 \<noteq> -1 then st1\<lparr>preDotState := -1\<rparr>
                    else st1)
         in parse_loop path start i st2))"

definition path_parse :: "string \<Rightarrow> parsed" where
  "path_parse path =
     (if path = [] then \<lparr>root = [], dir = [], base = [], ext = [], name = []\<rparr>
      else
        let isAbsolute = (hd path = CHR ''/'');
            start = (if isAbsolute then 1 else 0);
            st = parse_loop path start (length path)
                   \<lparr>startDot = -1, startPart = 0, endp = -1, matchedSlash = True,
                    preDotState = 0\<rparr>;
            start' = (if startPart st = 0 \<and> isAbsolute then 1 else startPart st);
            noext = (startDot st = -1 \<or> preDotState st = 0 \<or>
                     (preDotState st = 1 \<and> startDot st = endp st - 1 \<and>
                      startDot st = startPart st + 1))
        in \<lparr>root = (if isAbsolute then ''/'' else []),
            dir = (if 0 < startPart st then slice path 0 (startPart st - 1)
                   else if isAbsolute then ''/'' else []),
            base = (if endp st \<noteq> -1 then slice path start' (endp st) else []),
            ext = (if endp st \<noteq> -1 \<and> \<not> noext then slice path (startDot st) (endp st)
                   else []),
            name = (if endp st \<noteq> -1
                    then (if noext then slice path start' (endp st)
                          else slice path start' (startDot st))
                    else [])\<rparr>)"

definition path_format :: "parsed \<Rightarrow> string" where
  "path_format p =
     (let d = (if dir p \<noteq> [] then dir p else root p);
          b = (if base p \<noteq> [] then base p else name p @ ext p)
      in if d = [] then b
         else if d = root p then d @ b
         else d @ ''/'' @ b)"

subsection \<open>The file system (\<open>fs-extra\<close>, \<open>read-chunk\<close>, \<open>image-size\<close>, \<open>jimp\<close>)\<close>

definition statAsync :: "world \<Rightarrow> string \<Rightarrow> error + stats" where
  "statAsync w p =
     (case fs w p of
        None \<Rightarrow> Inl (FsError p)
      | Some (RegFile n) \<Rightarrow> Inr \<lparr>isFile = True, isDirectory = False, st_size = f_size n\<rparr>
      | Some (Directory es) \<Rightarrow> Inr \<lparr>isFile = False, isDirectory = True, st_size = 0\<rparr>
      | Some Special \<Rightarrow> Inr \<lparr>isFile = False, isDirectory = False, st_size = 0\<rparr>)"

definition readdirAsync :: "world \<Rightarrow> string \<Rightarrow> error + string list" where
  "readdirAsync w p =
     (case fs w p of Some (Directory (Some es)) \<Rightarrow> Inr es | _ \<Rightarrow> Inl (FsError p))"

text \<open>\<open>readChunk.sync(p, pos, len)\<close>: at most \<open>len\<close> bytes from \<open>pos\<close>.\<close>

definition readChunk :: "world \<Rightarrow> string \<Rightarrow> nat \<Rightarrow> nat \<Rightarrow> error + buffer" where
  "readChunk w p pos len =
     (case fs w p of
        Some (RegFile n) \<Rightarrow>
          (case f_head n of
             Some bs \<Rightarrow> Inr (take len (drop pos bs))
           | None \<Rightarrow> Inl (FsError p))
      | _ \<Rightarrow> Inl (FsError p))"

definition getImageSize :: "world \<Rightarrow> string \<Rightarrow> error + imgsize" where
  "getImageSize w sourcePath =
     (case fs w sourcePath of
        Some (RegFile n) \<Rightarrow>
          (case f_dims n of Some d \<Rightarrow> Inr d | None \<Rightarrow> Inl (ImageSizeError sourcePath))
      | _ \<Rightarrow> Inl (ImageSizeError sourcePath))"

text \<open>\<open>fs.ensureDir\<close>: the directory is there afterwards, or the call rejects.\<close>

definition ensureDirAsync :: "world \<Rightarrow> string \<Rightarrow> world \<times> (error + unit)" where
  "ensureDirAsync w d =
     (case fs w d of
        None \<Rightarrow> (w\<lparr>fs := (fs w)(d \<mapsto> Directory (Some []))\<rparr>, Inr ())
      | Some (Directory es) \<Rightarrow> (w, Inr ())
      | Some _ \<Rightarrow> (w, Inl (FsError d)))"

text \<open>
  \<open>generateThumbnail\<close>: \<open>jimp\<close> reads the source and writes the contained 150x150
  image to the destination; a failure is logged and thrown again.
\<close>

definition generateThumbnail :: "world \<Rightarrow> string \<Rightarrow> string \<Rightarrow> world \<times> (error + unit)" where
  "generateThumbnail w sourcePath destPath =
     (let w0 = w\<lparr>thumb_calls := thumb_calls w @ [(sourcePath, destPath)]\<rparr>
      in case jimp w0 sourcePath of
           None \<Rightarrow>
             (log_error ''Unable to generate thumbnail:'' (Some (JimpError sourcePath)) w0,
              Inl (JimpError sourcePath))
         | Some img \<Rightarrow>
             (case fs w0 destPath of
                Some (Directory es) \<Rightarrow>
                  (log_error ''Unable to generate thumbnail:'' (Some (FsError destPath)) w0,
                   Inl (FsError destPath))
              | _ \<Rightarrow> (w0\<lparr>fs := (fs w0)(destPath \<mapsto> RegFile img)\<rparr>, Inr ())))"

subsection \<open>The catalogue store\<close>

text \<open>
  The collections \<open>db.UplFile\<close> and \<open>db.UplFolder\<close>: their models and the store
  behind them are not part of the sources at hand. A collection is the list of
  its documents, and its operations always succeed.
\<close>

text \<open>
  Modelled from the spec: \<open>remove({})\<close> on a collection, the spec's "delete all
  existing records".
\<close>

definition remove_all :: "'a list \<Rightarrow> 'a list" where
  "remove_all c = []"

text \<open>
  Modelled from the spec: \<open>insertMany\<close> on a collection, the spec's "bulk-insert"
  of the given records.
\<close>

definition insertMany :: "'a list \<Rightarrow> 'a list \<Rightarrow> 'a list" where
  "insertMany c docs = c @ docs"

text \<open>
  Modelled from the spec: the upsert behind \<open>findByIdAndUpdate\<close> on \<open>db.UplFile\<close>,
  the spec's "upsert it into the FileRecord collection by identifier (insert if
  new, overwrite if existing)".
\<close>

fun upsertById :: "string \<Rightarrow> file_rec \<Rightarrow> file_rec list \<Rightarrow> file_rec list" where
  "upsertById i m [] = [m]"
| "upsertById i m (r # rs) = (if doc_id r = i then m # rs else r # upsertById i m rs)"

text \<open>
  \<open>findByIdAndUpdate(id, update, {upsert: true})\<close> with the values the handler
  passes: \<open>None\<close> stands for an \<open>id\<close> that is \<open>undefined\<close> and for an update that is
  \<open>false\<close>.
\<close>

definition findByIdAndUpdate ::
  "libs \<Rightarrow> string option \<Rightarrow> file_rec option \<Rightarrow> file_rec list \<Rightarrow> error + file_rec list" where
  "findByIdAndUpdate L i m c =
     (case (i, m) of
        (Some i', Some m') \<Rightarrow> Inr (upsertById i' m' c)
      | _ \<Rightarrow> malformed_upsert L c)"

definition commitUploads :: "string \<Rightarrow> string \<Rightarrow> world \<Rightarrow> world" where
  "commitUploads key p w = w\<lparr>commits := commits w @ [(key, p)]\<rparr>"

subsection \<open>\<open>parseUploadsRelPath\<close>\<close>

record rel_path =
  rp_folder :: string
  rp_filename :: string

definition parseUploadsRelPath :: "string \<Rightarrow> rel_path" where
  "parseUploadsRelPath f =
     (let fObj = path_parse f in \<lparr>rp_folder = dir fObj, rp_filename = base fObj\<rparr>)"

subsection \<open>\<open>processFile\<close>\<close>

definition image_mimes :: "string list" where
  "image_mimes = [''image/png'', ''image/jpeg'', ''image/gif'', ''image/bmp'']"

text \<open>Line 175: the identifier of a file.\<close>

definition fUid :: "libs \<Rightarrow> string \<Rightarrow> string \<Rightarrow> string" where
  "fUid L fldName f = md5_hex L (fldName @ ''/'' @ f)"

text \<open>Lines 184 to 189: the sniffed type, else the type of the extension, else the default.\<close>

definition mimeInfo :: "libs \<Rightarrow> buffer \<Rightarrow> string \<Rightarrow> string" where
  "mimeInfo L chunk e =
     (case fileType L chunk of
        Some m \<Rightarrow> m
      | None \<Rightarrow>
          (case mime_lookup L e of
             Some m \<Rightarrow> if m = [] then ''application/octet-stream'' else m
           | None \<Rightarrow> ''application/octet-stream''))"

text \<open>
  Lines 210 to 225, "Generate thumbnail": the record is returned at once when the
  thumbnail is there, and after the thumbnail has been written otherwise.
\<close>

definition generate_block ::
  "world \<Rightarrow> string \<Rightarrow> string \<Rightarrow> string \<Rightarrow> parsed \<Rightarrow> string \<Rightarrow> file_rec \<Rightarrow> world \<times> (error + result)" where
  "generate_block w fldName f fPath cacheThumbnailPath cacheThumbnailPathStr mData =
     (let w1 = info (fldName @ '' - generating thumbnail: '' @ f) w;
          thumbExists =
            (case statAsync w1 cacheThumbnailPathStr of
               Inl err \<Rightarrow> False
             | Inr st \<Rightarrow> isFile st)
      in if thumbExists then (w1, Inr (Rec mData))
         else
           (case ensureDirAsync w1 (dir cacheThumbnailPath) of
              (w2, Inl err) \<Rightarrow> (w2, Inl err)
            | (w2, Inr u) \<Rightarrow>
                (case generateThumbnail w2 fPath cacheThumbnailPathStr of
                   (w3, Inl err) \<Rightarrow> (w3, Inl err)
                 | (w3, Inr u') \<Rightarrow> (w3, Inr (Rec mData)))))"

text \<open>The body of the \<open>try\<close> block: \<open>Inl err\<close> is what the \<open>catch\<close> receives.\<close>

definition processFile_try :: "libs \<Rightarrow> world \<Rightarrow> string \<Rightarrow> string \<Rightarrow> world \<times> (error + result)" where
  "processFile_try L w fldName f =
     (let fldPath = path_join L (uploadsPath w) fldName;
          fPath = path_join L fldPath f;
          fPathObj = path_parse fPath;
          uid = fUid L fldName f
      in case statAsync w fPath of
           Inl err \<Rightarrow> (w, Inl err)
         | Inr s \<Rightarrow>
             if \<not> isFile s
             then (info (dquote @ fPath @ dquote @ '' was not a valid file!'') w, Inr JFalse)
             else
               (case readChunk w fPath 0 262 of
                  Inl err \<Rightarrow> (w, Inl err)
                | Inr chunk \<Rightarrow>
                    let mi = mimeInfo L chunk (ext fPathObj);
                        other = \<lparr>doc_id = uid, category = ''binary'', mime = mi,
                                 extra = None, folder = ''f:'' @ fldName, filename = f,
                                 basename = name fPathObj, filesize = st_size s\<rparr>
                    in if st_size s < 3145728 then
                         if mi \<in> set image_mimes then
                           (case getImageSize w fPath of
                              Inl err \<Rightarrow> (w, Inl err)
                            | Inr mImgSize \<Rightarrow>
                                let cacheThumbnailPath =
                                      path_parse (path_join L (uploadsThumbsPath w) (uid @ ''.png''));
                                    cacheThumbnailPathStr = path_format cacheThumbnailPath;
                                    mData = \<lparr>doc_id = uid, category = ''image'', mime = mi,
                                             extra = Some mImgSize, folder = ''f:'' @ fldName,
                                             filename = f, basename = name fPathObj,
                                             filesize = st_size s\<rparr>
                                in generate_block w fldName f fPath cacheThumbnailPath
                                     cacheThumbnailPathStr mData)
                         else (w, Inr (Rec other))
                       else
                         (info (fldName @ '' - file too large to save to uploads: '' @ f) w,
                          Inr (Rec other))))"

definition processFile :: "libs \<Rightarrow> world \<Rightarrow> string \<Rightarrow> string \<Rightarrow> world \<times> result" where
  "processFile L w fldName f =
     (case processFile_try L (info (fldName @ '' - processing file: '' @ f) w) fldName f of
        (w', Inl err) \<Rightarrow> (log_error ''Error processing file:'' (Some err) w', JUndefined)
      | (w', Inr v) \<Rightarrow> (w', v))"

subsection \<open>\<open>initialScan\<close>\<close>

text \<open>
  \<open>Promise.map\<close>: the mapper runs on every element; the first rejection rejects the
  whole. The mappers of the source run interleaved; the model runs them in the
  order of the list, and a rejection ends the run there.
\<close>

fun promise_map :: "('s \<Rightarrow> 'a \<Rightarrow> 's \<times> (error + unit)) \<Rightarrow> 's \<Rightarrow> 'a list \<Rightarrow> 's \<times> (error + unit)" where
  "promise_map m s [] = (s, Inr ())"
| "promise_map m s (x # xs) =
     (case m s x of
        (s', Inl err) \<Rightarrow> (s', Inl err)
      | (s', Inr u) \<Rightarrow> promise_map m s' xs)"

text \<open>Lines 89 to 91: each entry of the root with its \<open>stat\<close>.\<close>

fun statAll :: "libs \<Rightarrow> world \<Rightarrow> string list \<Rightarrow> error + (string \<times> stats) list" where
  "statAll L w [] = Inr []"
| "statAll L w (f # rest) =
     (case statAsync w (path_join L (uploadsPath w) f) of
        Inl err \<Rightarrow> Inl err
      | Inr s \<Rightarrow>
          (case statAll L w rest of
             Inl err \<Rightarrow> Inl err
           | Inr r \<Rightarrow> Inr ((f, s) # r)))"

text \<open>Lines 88 to 95: the folder names, the empty name of the root folder first.\<close>

definition listFolders :: "libs \<Rightarrow> world \<Rightarrow> string list \<Rightarrow> world \<times> (error + string list)" where
  "listFolders L w ls =
     (let w1 = info (show_nat (length ls) @ '' files/folders found.'') w
      in case statAll L w1 ls of
           Inl err \<Rightarrow> (w1, Inl err)
         | Inr sts \<Rightarrow>
             let arrDirs = filter (\<lambda>s. isDirectory (snd s)) sts;
                 w2 = info (''Found '' @ show_nat (length arrDirs) @ '' directories.'') w1
             in (w2, Inr ([] # map fst arrDirs)))"

text \<open>Lines 98 to 106.\<close>

definition replaceFolders :: "world \<Rightarrow> string list \<Rightarrow> world" where
  "replaceFolders w folderNames =
     (let w1 = info ''Removing old uploaded folders'' w;
          w2 = w1\<lparr>UplFolder := remove_all (UplFolder w1)\<rparr>;
          w3 = info (''Inserting '' @ show_nat (length folderNames) @ '' folders into database.'') w2
      in w3\<lparr>UplFolder :=
              insertMany (UplFolder w3)
                (map (\<lambda>f. \<lparr>fld_id = ''f:'' @ f, fld_name = f\<rparr>) folderNames)\<rparr>)"

text \<open>Lines 115 to 123: the mapper of one file; \<open>allFiles\<close> is part of the state.\<close>

definition scanFile ::
  "libs \<Rightarrow> string \<Rightarrow> world \<times> file_rec list \<Rightarrow> string \<Rightarrow> (world \<times> file_rec list) \<times> (error + unit)" where
  "scanFile L fldName s f =
     (case s of (w, allFiles) \<Rightarrow>
        (case processFile L w fldName f of
           (w', Rec mData) \<Rightarrow>
             ((info (''Adding '' @ dquote @ f @ dquote @ '' to list of files.'') w',
               allFiles @ [mData]), Inr ())
         | (w', JFalse) \<Rightarrow>
             ((log_error (''Skipping file '' @ dquote @ f @ dquote) None w', allFiles), Inr ())
         | (w', JUndefined) \<Rightarrow>
             ((log_error (''Skipping file '' @ dquote @ f @ dquote) None w', allFiles), Inr ())))"

text \<open>Lines 110 to 124: the mapper of one folder.\<close>

definition scanFolder ::
  "libs \<Rightarrow> world \<times> file_rec list \<Rightarrow> string \<Rightarrow> (world \<times> file_rec list) \<times> (error + unit)" where
  "scanFolder L s fldName =
     (case s of (w, allFiles) \<Rightarrow>
        let w1 = info (''Traversing directory: '' @ fldName) w;
            fldPath = path_join L (uploadsPath w1) fldName
        in case readdirAsync w1 fldPath of
             Inl err \<Rightarrow> ((w1, allFiles), Inl err)
           | Inr fList \<Rightarrow>
               promise_map (scanFile L fldName)
                 (info (fldName @ '' - '' @ show_nat (length fList) @ '' files found.'') w1,
                  allFiles)
                 fList)"

text \<open>Lines 107 to 124: the traversal, from an empty \<open>allFiles\<close>.\<close>

definition traverse ::
  "libs \<Rightarrow> world \<Rightarrow> string list \<Rightarrow> (world \<times> file_rec list) \<times> (error + unit)" where
  "traverse L w folderNames =
     promise_map (scanFolder L) (info ''Traversing directories'' w, []) folderNames"

text \<open>Lines 128 to 136: the \<open>finally\<close> block.\<close>

definition replaceFiles :: "world \<Rightarrow> file_rec list \<Rightarrow> world" where
  "replaceFiles w allFiles =
     (let w1 = info ''Removing old uploaded files'' w;
          w2 = w1\<lparr>UplFile := remove_all (UplFile w1)\<rparr>
      in if 0 < length allFiles
         then (let w3 = info (''Inserting '' @ show_nat (length allFiles) @ '' files into database.'') w2
               in w3\<lparr>UplFile := insertMany (UplFile w3) allFiles\<rparr>)
         else info ''No files to insert, skipping.'' w2)"

subsection \<open>\<open>watch\<close>\<close>

definition watch :: "world \<Rightarrow> world" where
  "watch w =
     w\<lparr>watcher := Some \<lparr>persistent = True, ignoreInitial = True, cwd = uploadsPath w,
                         depth = 1, awaitWriteFinish = True\<rparr>\<rparr>"

text \<open>
  Lines 60 to 67, the handler of \<open>add\<close>. Reading \<open>_id\<close> of \<open>undefined\<close> throws a
  \<open>TypeError\<close>; of \<open>false\<close> it is \<open>undefined\<close>.
\<close>

definition on_add :: "libs \<Rightarrow> world \<Rightarrow> string \<Rightarrow> world \<times> outcome" where
  "on_add L w p =
     (let pInfo = parseUploadsRelPath p
      in case processFile L w (rp_folder pInfo) (rp_filename pInfo) of
           (w1, JUndefined) \<Rightarrow> (w1, Rejected TypeError)
         | (w1, JFalse) \<Rightarrow>
             (case findByIdAndUpdate L None None (UplFile w1) of
                Inl err \<Rightarrow> (w1, Rejected err)
              | Inr c \<Rightarrow> (commitUploads ''git:uploaded'' p (w1\<lparr>UplFile := c\<rparr>), Resolved))
         | (w1, Rec mData) \<Rightarrow>
             (case findByIdAndUpdate L (Some (doc_id mData)) (Some mData) (UplFile w1) of
                Inl err \<Rightarrow> (w1, Rejected err)
              | Inr c \<Rightarrow> (commitUploads ''git:uploaded'' p (w1\<lparr>UplFile := c\<rparr>), Resolved)))"

text \<open>Lines 71 to 73, the handler of \<open>unlink\<close>.\<close>

definition on_unlink :: "world \<Rightarrow> string \<Rightarrow> world \<times> outcome" where
  "on_unlink w p = (commitUploads ''git:deleted'' p w, Resolved)"

text \<open>Lines 86 to 143: the outer \<open>try\<close> block of \<open>initialScan\<close>.\<close>

definition scan_try :: "libs \<Rightarrow> world \<Rightarrow> string list \<Rightarrow> world \<times> (error + unit)" where
  "scan_try L w ls =
     (case listFolders L w ls of
        (w1, Inl err) \<Rightarrow> (w1, Inl err)
      | (w1, Inr folderNames) \<Rightarrow>
          (case traverse L (replaceFolders w1 folderNames) folderNames of
             ((w2, allFiles), r) \<Rightarrow>
               let w3 = (case r of
                           Inl err \<Rightarrow> log_error ''Error during initial scan:'' (Some err) w2
                         | Inr u \<Rightarrow> w2);
                   w4 = replaceFiles w3 allFiles;
                   w5 = info ''Setting watcher for uploads folder.'' w4
               in (watch w5, Inr ())))"

text \<open>The root listing of line 85 stands before the \<open>try\<close>.\<close>

definition initialScan :: "libs \<Rightarrow> world \<Rightarrow> world \<times> outcome" where
  "initialScan L w =
     (let w0 = info ''Reading uploads directory.'' w
      in case readdirAsync w0 (uploadsPath w0) of
           Inl err \<Rightarrow> (w0, Rejected err)
         | Inr ls \<Rightarrow>
             (case scan_try L w0 ls of
                (w', Inl err) \<Rightarrow>
                  (log_error ''Failed during initial scan of uploads: '' (Some err) w', Resolved)
              | (w', Inr u) \<Rightarrow> (w', Resolved)))"

subsection \<open>Notions used in the statements\<close>

text \<open>The path of the file that \<open>processFile\<close> works on (lines 172 and 173).\<close>

abbreviation (input) fPath :: "libs \<Rightarrow> world \<Rightarrow> string \<Rightarrow> string \<Rightarrow> string" where
  "fPath L w fldName f \<equiv> path_join L (path_join L (uploadsPath w) fldName) f"

text \<open>The path of its thumbnail, \<open>cacheThumbnailPathStr\<close> (lines 196 and 197).\<close>

definition thumbPath :: "libs \<Rightarrow> world \<Rightarrow> string \<Rightarrow> string \<Rightarrow> string" where
  "thumbPath L w fldName f =
     path_format (path_parse (path_join L (uploadsThumbsPath w) (fUid L fldName f @ ''.png'')))"

text \<open>
  The record that \<open>processFile\<close> builds for a regular file with node \<open>n\<close> and leading
  bytes \<open>bs\<close>, when it builds one.
\<close>

definition record_of :: "libs \<Rightarrow> world \<Rightarrow> string \<Rightarrow> string \<Rightarrow> file_node \<Rightarrow> buffer \<Rightarrow> file_rec" where
  "record_of L w fldName f n bs =
     (let mi = mimeInfo L (take 262 bs) (ext (path_parse (fPath L w fldName f)));
          img = (f_size n < 3145728 \<and> mi \<in> set image_mimes)
      in \<lparr>doc_id = fUid L fldName f,
          category = (if img then ''image'' else ''binary''),
          mime = mi,
          extra = (if img then f_dims n else None),
          folder = ''f:'' @ fldName, filename = f,
          basename = name (path_parse (fPath L w fldName f)),
          filesize = f_size n\<rparr>)"

text \<open>
  What \<open>processFile\<close> returns for each file of a listing in turn, in the worlds the
  scan of the folder passes through, and the records among these results.
\<close>

fun file_results :: "libs \<Rightarrow> world \<Rightarrow> string \<Rightarrow> string list \<Rightarrow> result list" where
  "file_results L w fldName [] = []"
| "file_results L w fldName (f # rest) =
     snd (processFile L w fldName f) #
     file_results L (fst (fst (scanFile L fldName (w, []) f))) fldName rest"

fun records :: "result list \<Rightarrow> file_rec list" where
  "records [] = []"
| "records (Rec m # rs) = m # records rs"
| "records (JFalse # rs) = records rs"
| "records (JUndefined # rs) = records rs"

subsection \<open>A sample installation\<close>

text \<open>
  Stand-ins for the libraries, to run the agent on concrete inputs: joining
  normalised segments, an injective stand-in for the digest, the PNG signature,
  and two extensions. The theorems below hold for every \<open>libs\<close>.
\<close>

definition sample_libs :: libs where
  "sample_libs =
     \<lparr>path_join = (\<lambda>a b. if b = [] then a else a @ ''/'' @ b),
      md5_hex = map (\<lambda>c. if c = CHR ''/'' then CHR ''-'' else c),
      fileType = (\<lambda>chunk. if take 4 chunk = [0x89, 0x50, 0x4E, 0x47] then Some ''image/png''
                           else None),
      mime_lookup = (\<lambda>e. if e = ''.txt'' then Some ''text/plain''
                          else if e = ''.png'' then Some ''image/png'' else None),
      malformed_upsert = (\<lambda>c. Inl StoreError)\<rparr>"

definition png_file :: "nat \<Rightarrow> imgsize option \<Rightarrow> node" where
  "png_file n d =
     RegFile \<lparr>f_size = n, f_head = Some [0x89, 0x50, 0x4E, 0x47, 0x0D, 0x0A], f_dims = d\<rparr>"

definition text_file :: "nat \<Rightarrow> node" where
  "text_file n = RegFile \<lparr>f_size = n, f_head = Some [0x68, 0x69], f_dims = None\<rparr>"

definition sample_world :: "string \<Rightarrow> (string \<times> node) list \<Rightarrow> world" where
  "sample_world up files =
     \<lparr>uploadsPath = up, uploadsThumbsPath = ''/srv/thumbs'', watcher = None,
      fs = map_of files,
      jimp = (\<lambda>p. Some \<lparr>f_size = 900, f_head = Some [0x89, 0x50, 0x4E, 0x47],
                         f_dims = Some \<lparr>width = 150, height = 150\<rparr>\<rparr>),
      UplFile = [], UplFolder = [], commits = [], logs = [], thumb_calls = []\<rparr>"

text \<open>
  A root folder of five files: a PNG one byte under the limit, a text file, a
  PNG whose dimensions cannot be read, a PNG of exactly the limit, and another
  text file.
\<close>

definition five_files :: world where
  "five_files =
     sample_world ''/srv/uploads''
       [(''/srv/uploads'', Directory (Some [''a.png'', ''b.txt'', ''c.png'', ''d.png'', ''e.txt''])),
        (''/srv/uploads/a.png'', png_file 3145727 (Some \<lparr>width = 640, height = 480\<rparr>)),
        (''/srv/uploads/b.txt'', text_file 12),
        (''/srv/uploads/c.png'', png_file 100 None),
        (''/srv/uploads/d.png'', png_file 3145728 (Some \<lparr>width = 640, height = 480\<rparr>)),
        (''/srv/uploads/e.txt'', text_file 7)]"

text \<open>The same PNG under another root, with other files around it.\<close>

definition other_root :: world where
  "other_root =
     sample_world ''/mnt/data''
       [(''/mnt/data'', Directory (Some [''a.png''])),
        (''/mnt/data/a.png'', png_file 2048 (Some \<lparr>width = 32, height = 32\<rparr>)),
        (''/srv/thumbs/-a.png.png'', png_file 900 (Some \<lparr>width = 150, height = 150\<rparr>))]"


text \<open>An installation whose uploads directory is missing.\<close>

definition no_root :: world where
  "no_root = sample_world ''/srv/uploads'' []"

section \<open>Properties\<close>

subsection \<open>Logging changes the log only\<close>

lemma info_fields [simp]:
  "uploadsPath (info m w) = uploadsPath w"
  "uploadsThumbsPath (info m w) = uploadsThumbsPath w"
  "watcher (info m w) = watcher w"
  "fs (info m w) = fs w"
  "jimp (info m w) = jimp w"
  "UplFile (info m w) = UplFile w"
  "UplFolder (info m w) = UplFolder w"
  "commits (info m w) = commits w"
  "thumb_calls (info m w) = thumb_calls w"
  "logs (info m w) = logs w @ [LInfo m]"
  by (simp_all add: info_def)

lemma log_error_fields [simp]:
  "uploadsPath (log_error m e w) = uploadsPath w"
  "uploadsThumbsPath (log_error m e w) = uploadsThumbsPath w"
  "watcher (log_error m e w) = watcher w"
  "fs (log_error m e w) = fs w"
  "jimp (log_error m e w) = jimp w"
  "UplFile (log_error m e w) = UplFile w"
  "UplFolder (log_error m e w) = UplFolder w"
  "commits (log_error m e w) = commits w"
  "thumb_calls (log_error m e w) = thumb_calls w"
  "logs (log_error m e w) = logs w @ [LError m e]"
  by (simp_all add: log_error_def)

lemma record_of_cong:
  "uploadsPath w = uploadsPath w' \<Longrightarrow> record_of L w fldName f n bs = record_of L w' fldName f n bs"
  by (simp add: record_of_def)

lemma thumbPath_cong:
  "uploadsThumbsPath w = uploadsThumbsPath w' \<Longrightarrow> thumbPath L w fldName f = thumbPath L w' fldName f"
  by (simp add: thumbPath_def)

lemma record_of_info [simp]: "record_of L (info m w) fldName f n bs = record_of L w fldName f n bs"
  by (simp add: record_of_def)

lemma thumbPath_info [simp]: "thumbPath L (info m w) fldName f = thumbPath L w fldName f"
  by (simp add: thumbPath_def)

subsection \<open>What \<open>processFile\<close> returns\<close>

lemma generate_block_value:
  "snd (generate_block w fldName f p c s mData) = Inr v \<Longrightarrow> v = Rec mData"
  unfolding generate_block_def Let_def
  by (auto split: if_splits prod.splits sum.splits)

lemma processFile_try_regular:
  assumes "fs w (fPath L w fldName f) = Some (RegFile n)" and "f_head n = Some bs"
  shows "processFile_try L w fldName f =
     (let r = record_of L w fldName f n bs
      in if f_size n < 3145728 then
           if mime r \<in> set image_mimes then
             (case f_dims n of
                None \<Rightarrow> (w, Inl (ImageSizeError (fPath L w fldName f)))
              | Some d \<Rightarrow>
                  generate_block w fldName f (fPath L w fldName f)
                    (path_parse (path_join L (uploadsThumbsPath w) (fUid L fldName f @ ''.png'')))
                    (thumbPath L w fldName f) r)
           else (w, Inr (Rec r))
         else (info (fldName @ '' - file too large to save to uploads: '' @ f) w, Inr (Rec r)))"
  using assms
  by (auto simp: processFile_try_def statAsync_def readChunk_def getImageSize_def record_of_def
      thumbPath_def Let_def split: option.splits)

lemma processFile_try_Rec:
  assumes "snd (processFile_try L w fldName f) = Inr (Rec r)"
  shows "\<exists>n bs. fs w (fPath L w fldName f) = Some (RegFile n) \<and> f_head n = Some bs \<and>
           r = record_of L w fldName f n bs \<and>
           (category r = ''image'' \<longrightarrow> f_dims n \<noteq> None)"
proof (cases "fs w (fPath L w fldName f)")
  case None
  with assms show ?thesis
    by (simp add: processFile_try_def statAsync_def Let_def)
next
  case (Some nd)
  show ?thesis
  proof (cases nd)
    case (RegFile n)
    show ?thesis
    proof (cases "f_head n")
      case None
      with assms Some RegFile show ?thesis
        by (simp add: processFile_try_def statAsync_def readChunk_def Let_def)
    next
      case (Some bs)
      note reg = processFile_try_regular [OF \<open>fs w (fPath L w fldName f) = Some nd\<close> [unfolded RegFile] Some]
      have "r = record_of L w fldName f n bs \<and> (category r = ''image'' \<longrightarrow> f_dims n \<noteq> None)"
        using assms unfolding reg Let_def
        by (auto simp: record_of_def Let_def dest!: generate_block_value split: if_splits option.splits)
      with \<open>fs w (fPath L w fldName f) = Some nd\<close> RegFile Some show ?thesis by simp
    qed
  next
    case (Directory es)
    with assms Some show ?thesis
      by (simp add: processFile_try_def statAsync_def Let_def)
  next
    case Special
    with assms Some show ?thesis
      by (simp add: processFile_try_def statAsync_def Let_def)
  qed
qed

lemma processFile_snd:
  "snd (processFile L w fldName f) =
     (case snd (processFile_try L (info (fldName @ '' - processing file: '' @ f) w) fldName f) of
        Inl err \<Rightarrow> JUndefined | Inr v \<Rightarrow> v)"
  by (simp add: processFile_def split: prod.splits sum.splits)

lemma processFile_Rec:
  assumes "snd (processFile L w fldName f) = Rec r"
  shows "\<exists>n bs. fs w (fPath L w fldName f) = Some (RegFile n) \<and> f_head n = Some bs \<and>
           r = record_of L w fldName f n bs \<and>
           (category r = ''image'' \<longrightarrow> f_dims n \<noteq> None)"
proof -
  from assms have "snd (processFile_try L (info (fldName @ '' - processing file: '' @ f) w) fldName f) = Inr (Rec r)"
    by (simp add: processFile_snd split: sum.splits)
  from processFile_try_Rec [OF this] show ?thesis
    by simp
qed

lemma processFile_oversized:
  assumes "fs w (fPath L w fldName f) = Some (RegFile n)" and "f_head n = Some bs"
    and "3145728 \<le> f_size n"
  shows "snd (processFile L w fldName f) = Rec (record_of L w fldName f n bs)"
proof -
  let ?w = "info (fldName @ '' - processing file: '' @ f) w"
  have "fs ?w (fPath L ?w fldName f) = Some (RegFile n)"
    using assms(1) by simp
  from processFile_try_regular [OF this assms(2)] assms(3) show ?thesis
    by (simp add: processFile_snd Let_def)
qed

subsection \<open>Running the sample installation\<close>

lemmas run_defs =
  processFile_def processFile_try_def generate_block_def generateThumbnail_def
  ensureDirAsync_def statAsync_def readdirAsync_def readChunk_def getImageSize_def
  info_def log_error_def mimeInfo_def image_mimes_def fUid_def thumbPath_def path_format_def
  dquote_def Let_def sample_libs_def sample_world_def png_file_def text_file_def

lemma parse_root_files:
  "path_parse ''/srv/uploads/a.png'' =
     \<lparr>root = ''/'', dir = ''/srv/uploads'', base = ''a.png'', ext = ''.png'', name = ''a''\<rparr>"
  "path_parse ''/srv/uploads/b.txt'' =
     \<lparr>root = ''/'', dir = ''/srv/uploads'', base = ''b.txt'', ext = ''.txt'', name = ''b''\<rparr>"
  "path_parse ''/srv/uploads/c.png'' =
     \<lparr>root = ''/'', dir = ''/srv/uploads'', base = ''c.png'', ext = ''.png'', name = ''c''\<rparr>"
  "path_parse ''/srv/uploads/d.png'' =
     \<lparr>root = ''/'', dir = ''/srv/uploads'', base = ''d.png'', ext = ''.png'', name = ''d''\<rparr>"
  "path_parse ''/srv/uploads/e.txt'' =
     \<lparr>root = ''/'', dir = ''/srv/uploads'', base = ''e.txt'', ext = ''.txt'', name = ''e''\<rparr>"
  "path_parse ''/mnt/data/a.png'' =
     \<lparr>root = ''/'', dir = ''/mnt/data'', base = ''a.png'', ext = ''.png'', name = ''a''\<rparr>"
  by code_simp+

lemma parse_thumbs:
  "path_parse ''/srv/thumbs/-a.png.png'' =
     \<lparr>root = ''/'', dir = ''/srv/thumbs'', base = ''-a.png.png'', ext = ''.png'',
      name = ''-a.png''\<rparr>"
  "path_parse ''/srv/thumbs/-c.png.png'' =
     \<lparr>root = ''/'', dir = ''/srv/thumbs'', base = ''-c.png.png'', ext = ''.png'',
      name = ''-c.png''\<rparr>"
  by code_simp+

lemma parse_rel:
  "path_parse ''a.png'' = \<lparr>root = [], dir = [], base = ''a.png'', ext = ''.png'', name = ''a''\<rparr>"
  "path_parse ''b.txt'' = \<lparr>root = [], dir = [], base = ''b.txt'', ext = ''.txt'', name = ''b''\<rparr>"
  "path_parse ''c.png'' = \<lparr>root = [], dir = [], base = ''c.png'', ext = ''.png'', name = ''c''\<rparr>"
  by code_simp+


subsection \<open>What \<open>processFile\<close> leaves alone\<close>

lemma generate_block_frame:
  "UplFile (fst (generate_block w fldName f p c s mData)) = UplFile w"
  "UplFolder (fst (generate_block w fldName f p c s mData)) = UplFolder w"
  "commits (fst (generate_block w fldName f p c s mData)) = commits w"
  "watcher (fst (generate_block w fldName f p c s mData)) = watcher w"
  "uploadsPath (fst (generate_block w fldName f p c s mData)) = uploadsPath w"
  "uploadsThumbsPath (fst (generate_block w fldName f p c s mData)) = uploadsThumbsPath w"
  "jimp (fst (generate_block w fldName f p c s mData)) = jimp w"
  unfolding generate_block_def ensureDirAsync_def generateThumbnail_def Let_def
  by (simp_all split: sum.splits option.splits node.splits prod.splits)

lemma processFile_try_frame:
  "UplFile (fst (processFile_try L w fldName f)) = UplFile w"
  "UplFolder (fst (processFile_try L w fldName f)) = UplFolder w"
  "commits (fst (processFile_try L w fldName f)) = commits w"
  "watcher (fst (processFile_try L w fldName f)) = watcher w"
  "uploadsPath (fst (processFile_try L w fldName f)) = uploadsPath w"
  "uploadsThumbsPath (fst (processFile_try L w fldName f)) = uploadsThumbsPath w"
  "jimp (fst (processFile_try L w fldName f)) = jimp w"
  unfolding processFile_try_def Let_def
  by (simp_all add: generate_block_frame split: sum.splits)

lemma processFile_fst:
  "fst (processFile L w fldName f) =
     (case snd (processFile_try L (info (fldName @ '' - processing file: '' @ f) w) fldName f) of
        Inl err \<Rightarrow>
          log_error ''Error processing file:'' (Some err)
            (fst (processFile_try L (info (fldName @ '' - processing file: '' @ f) w) fldName f))
      | Inr v \<Rightarrow> fst (processFile_try L (info (fldName @ '' - processing file: '' @ f) w) fldName f))"
  by (simp add: processFile_def split: prod.splits sum.splits)

lemma processFile_frame:
  "UplFile (fst (processFile L w fldName f)) = UplFile w"
  "UplFolder (fst (processFile L w fldName f)) = UplFolder w"
  "commits (fst (processFile L w fldName f)) = commits w"
  "watcher (fst (processFile L w fldName f)) = watcher w"
  "uploadsPath (fst (processFile L w fldName f)) = uploadsPath w"
  "uploadsThumbsPath (fst (processFile L w fldName f)) = uploadsThumbsPath w"
  "jimp (fst (processFile L w fldName f)) = jimp w"
  unfolding processFile_fst by (simp_all add: processFile_try_frame split: sum.splits)

subsection \<open>Upsert by identifier\<close>

lemma upsertById_new: "i \<notin> doc_id ` set c \<Longrightarrow> upsertById i m c = c @ [m]"
  by (induction c) auto

lemma upsertById_length: "i \<in> doc_id ` set c \<Longrightarrow> length (upsertById i m c) = length c"
  by (induction c) auto

lemma upsertById_mem: "m \<in> set (upsertById i m c)"
  by (induction c) auto

lemma upsertById_has_id: "doc_id m = i \<Longrightarrow> i \<in> doc_id ` set (upsertById i m c)"
  using upsertById_mem [of m i c] by force

lemma upsertById_ids:
  "doc_id m = i \<Longrightarrow>
     map doc_id (upsertById i m c) =
       (if i \<in> doc_id ` set c then map doc_id c else map doc_id c @ [i])"
  by (induction c) auto

lemma upsertById_only:
  "doc_id m = i \<Longrightarrow> distinct (map doc_id c) \<Longrightarrow>
     filter (\<lambda>x. doc_id x = i) (upsertById i m c) = [m]"
proof (induction c)
  case Nil
  then show ?case by simp
next
  case (Cons r rs)
  show ?case
  proof (cases "doc_id r = i")
    case True
    with Cons.prems have "i \<notin> doc_id ` set rs" by auto
    then have "filter (\<lambda>x. doc_id x = i) rs = []"
      by (auto simp: filter_empty_conv)
    with True Cons.prems show ?thesis by simp
  next
    case False
    with Cons show ?thesis by simp
  qed
qed

lemma on_add_Rec:
  assumes "snd (processFile L w (rp_folder (parseUploadsRelPath p)) (rp_filename (parseUploadsRelPath p))) = Rec r"
  shows "on_add L w p =
     (commitUploads ''git:uploaded'' p
        ((fst (processFile L w (rp_folder (parseUploadsRelPath p)) (rp_filename (parseUploadsRelPath p))))
           \<lparr>UplFile := upsertById (doc_id r) r (UplFile w)\<rparr>), Resolved)"
proof -
  obtain w1 v where pf: "processFile L w (rp_folder (parseUploadsRelPath p))
      (rp_filename (parseUploadsRelPath p)) = (w1, v)"
    by (cases "processFile L w (rp_folder (parseUploadsRelPath p)) (rp_filename (parseUploadsRelPath p))")
  with assms have v: "v = Rec r" by simp
  from processFile_frame(1) [of L w "rp_folder (parseUploadsRelPath p)" "rp_filename (parseUploadsRelPath p)"] pf
  have "UplFile w1 = UplFile w" by simp
  with pf v show ?thesis
    by (simp add: on_add_def Let_def findByIdAndUpdate_def)
qed
subsection \<open>Classification and identity\<close>

text \<open>
  C1. Whenever \<open>processFile\<close> returns a record, the record's MIME type and size are
  those of the file, and its category is \<open>image\<close> exactly when the MIME type is one
  of the four image types and the size is below 3145728; otherwise it is \<open>binary\<close>
  and has no dimensions. A readable regular file of 3145728 bytes or more always
  yields a \<open>binary\<close> record without dimensions.
\<close>

theorem processFile_category:
  "(snd (processFile L w fldName f) = Rec r \<longrightarrow>
      (\<exists>n bs. fs w (fPath L w fldName f) = Some (RegFile n) \<and> f_head n = Some bs \<and>
         mime r = mimeInfo L (take 262 bs) (ext (path_parse (fPath L w fldName f))) \<and>
         filesize r = f_size n) \<and>
      (category r = ''image'' \<longleftrightarrow>
         mime r \<in> {''image/png'', ''image/jpeg'', ''image/gif'', ''image/bmp''} \<and>
         filesize r < 3145728) \<and>
      (category r \<noteq> ''image'' \<longrightarrow> category r = ''binary'' \<and> extra r = None))
   \<and> (fs w (fPath L w fldName f) = Some (RegFile n') \<and> f_head n' = Some bs' \<and>
        3145728 \<le> f_size n' \<longrightarrow>
        (\<exists>r'. snd (processFile L w fldName f) = Rec r' \<and> category r' = ''binary'' \<and>
           extra r' = None \<and> filesize r' = f_size n'))"
proof -
  have first: "(\<exists>n bs. fs w (fPath L w fldName f) = Some (RegFile n) \<and> f_head n = Some bs \<and>
         mime r = mimeInfo L (take 262 bs) (ext (path_parse (fPath L w fldName f))) \<and>
         filesize r = f_size n) \<and>
      (category r = ''image'' \<longleftrightarrow>
         mime r \<in> {''image/png'', ''image/jpeg'', ''image/gif'', ''image/bmp''} \<and>
         filesize r < 3145728) \<and>
      (category r \<noteq> ''image'' \<longrightarrow> category r = ''binary'' \<and> extra r = None)"
    if "snd (processFile L w fldName f) = Rec r"
  proof -
    from processFile_Rec [OF that] obtain n bs where
      n: "fs w (fPath L w fldName f) = Some (RegFile n)" "f_head n = Some bs"
      and r: "r = record_of L w fldName f n bs" by blast
    from r have fields: "mime r = mimeInfo L (take 262 bs) (ext (path_parse (fPath L w fldName f)))"
      "filesize r = f_size n"
      "category r = (if f_size n < 3145728 \<and> mime r \<in> set image_mimes then ''image'' else ''binary'')"
      "extra r = (if f_size n < 3145728 \<and> mime r \<in> set image_mimes then f_dims n else None)"
      by (simp_all add: record_of_def Let_def)
    from n fields(1,2) have "\<exists>n bs. fs w (fPath L w fldName f) = Some (RegFile n) \<and>
         f_head n = Some bs \<and>
         mime r = mimeInfo L (take 262 bs) (ext (path_parse (fPath L w fldName f))) \<and>
         filesize r = f_size n"
      by blast
    moreover from fields(2,3) have "category r = ''image'' \<longleftrightarrow>
         mime r \<in> {''image/png'', ''image/jpeg'', ''image/gif'', ''image/bmp''} \<and>
         filesize r < 3145728"
      by (auto simp: image_mimes_def)
    moreover from fields(3,4) have "category r \<noteq> ''image'' \<longrightarrow> category r = ''binary'' \<and> extra r = None"
      by (simp split: if_splits)
    ultimately show ?thesis by blast
  qed
  have second: "\<exists>r'. snd (processFile L w fldName f) = Rec r' \<and> category r' = ''binary'' \<and>
           extra r' = None \<and> filesize r' = f_size n'"
    if h: "fs w (fPath L w fldName f) = Some (RegFile n') \<and> f_head n' = Some bs' \<and>
        3145728 \<le> f_size n'"
  proof -
    from h have "snd (processFile L w fldName f) = Rec (record_of L w fldName f n' bs')"
      by (simp add: processFile_oversized)
    moreover from h have "category (record_of L w fldName f n' bs') = ''binary''"
      "extra (record_of L w fldName f n' bs') = None"
      "filesize (record_of L w fldName f n' bs') = f_size n'"
      by (simp_all add: record_of_def Let_def)
    ultimately show ?thesis by blast
  qed
  from first second show ?thesis by blast
qed

theorem processFile_category_witness:
  "(\<exists>r. snd (processFile sample_libs five_files [] ''a.png'') = Rec r \<and>
        mime r = ''image/png'' \<and> filesize r = 3145727 \<and> category r = ''image'') \<and>
   (\<exists>r'. snd (processFile sample_libs five_files [] ''d.png'') = Rec r' \<and>
        category r' = ''binary'' \<and> extra r' = None \<and> filesize r' = 3145728)"
proof -
  let ?ra = "\<lparr>doc_id = ''-a.png'', category = ''image'', mime = ''image/png'',
              extra = Some \<lparr>width = 640, height = 480\<rparr>, folder = ''f:'',
              filename = ''a.png'', basename = ''a'', filesize = 3145727\<rparr>"
  let ?nd = "\<lparr>f_size = 3145728, f_head = Some [0x89, 0x50, 0x4E, 0x47, 0x0D, 0x0A],
              f_dims = Some \<lparr>width = 640, height = 480\<rparr>\<rparr>"
  have a: "snd (processFile sample_libs five_files [] ''a.png'') = Rec ?ra"
    by (simp add: run_defs five_files_def parse_root_files parse_thumbs)
  have d: "fs five_files (fPath sample_libs five_files [] ''d.png'') = Some (RegFile ?nd) \<and>
           f_head ?nd = Some [0x89, 0x50, 0x4E, 0x47, 0x0D, 0x0A] \<and> 3145728 \<le> f_size ?nd"
    by (simp add: run_defs five_files_def)
  from processFile_category [of sample_libs five_files "[]" "''a.png''" ?ra] a
  have "category ?ra = ''image'' \<longleftrightarrow>
         mime ?ra \<in> {''image/png'', ''image/jpeg'', ''image/gif'', ''image/bmp''} \<and>
         filesize ?ra < 3145728"
    by blast
  with a have one: "\<exists>r. snd (processFile sample_libs five_files [] ''a.png'') = Rec r \<and>
        mime r = ''image/png'' \<and> filesize r = 3145727 \<and> category r = ''image''"
    by simp
  from processFile_category [of sample_libs five_files "[]" "''d.png''" _ ?nd] d
  have "\<exists>r'. snd (processFile sample_libs five_files [] ''d.png'') = Rec r' \<and>
        category r' = ''binary'' \<and> extra r' = None \<and> filesize r' = f_size ?nd"
    by blast
  with one show ?thesis by simp
qed

text \<open>
  C2. The identifier of a record depends on the folder name and the file name
  only: two runs of \<open>processFile\<close> on the same pair, in any two worlds (other roots,
  other file contents, other histories), give records with the same \<open>_id\<close>, the
  digest of the folder name, a slash and the file name.
\<close>

theorem identifier_deterministic:
  "snd (processFile L w1 fldName f) = Rec r1 \<Longrightarrow> snd (processFile L w2 fldName f) = Rec r2 \<Longrightarrow>
     doc_id r1 = doc_id r2 \<and> doc_id r1 = md5_hex L (fldName @ ''/'' @ f)"
  by (auto dest!: processFile_Rec simp: record_of_def fUid_def Let_def)

theorem identifier_deterministic_witness:
  "\<exists>r1 r2. snd (processFile sample_libs five_files [] ''a.png'') = Rec r1 \<and>
           snd (processFile sample_libs other_root [] ''a.png'') = Rec r2 \<and>
           filesize r1 \<noteq> filesize r2 \<and> doc_id r1 = doc_id r2 \<and>
           doc_id r1 = md5_hex sample_libs ''/a.png''"
proof -
  let ?r1 = "\<lparr>doc_id = ''-a.png'', category = ''image'', mime = ''image/png'',
              extra = Some \<lparr>width = 640, height = 480\<rparr>, folder = ''f:'',
              filename = ''a.png'', basename = ''a'', filesize = 3145727\<rparr>"
  let ?r2 = "\<lparr>doc_id = ''-a.png'', category = ''image'', mime = ''image/png'',
              extra = Some \<lparr>width = 32, height = 32\<rparr>, folder = ''f:'',
              filename = ''a.png'', basename = ''a'', filesize = 2048\<rparr>"
  have a: "snd (processFile sample_libs five_files [] ''a.png'') = Rec ?r1"
    by (simp add: run_defs five_files_def parse_root_files parse_thumbs)
  have b: "snd (processFile sample_libs other_root [] ''a.png'') = Rec ?r2"
    by (simp add: run_defs other_root_def parse_root_files parse_thumbs)
  from identifier_deterministic [OF a b] a b show ?thesis
    by (intro exI [of _ ?r1] exI [of _ ?r2]) simp
qed

subsection \<open>The watcher\<close>

text \<open>
  C3. When the path of an \<open>add\<close> event processes to a record, the handler resolves
  and the collection is the old one with the record upserted under its
  identifier, the digest of folder, slash and file name. For an identifier not
  yet in the collection this appends exactly the one record. A second \<open>add\<close> for
  the same path yields a record with the same identifier, leaves the number of
  documents as it is, and, the identifiers being distinct before, leaves the new
  record as the only one with this identifier.
\<close>

theorem on_add_upserts:
  assumes "snd (processFile L w (rp_folder (parseUploadsRelPath p))
             (rp_filename (parseUploadsRelPath p))) = Rec r"
  shows "snd (on_add L w p) = Resolved \<and>
         UplFile (fst (on_add L w p)) = upsertById (doc_id r) r (UplFile w) \<and>
         doc_id r = md5_hex L (rp_folder (parseUploadsRelPath p) @ ''/'' @
                               rp_filename (parseUploadsRelPath p)) \<and>
         r \<in> set (UplFile (fst (on_add L w p))) \<and>
         (doc_id r \<notin> doc_id ` set (UplFile w) \<longrightarrow>
            UplFile (fst (on_add L w p)) = UplFile w @ [r]) \<and>
         (\<forall>r2. snd (processFile L (fst (on_add L w p)) (rp_folder (parseUploadsRelPath p))
                    (rp_filename (parseUploadsRelPath p))) = Rec r2 \<longrightarrow>
            doc_id r2 = doc_id r \<and>
            length (UplFile (fst (on_add L (fst (on_add L w p)) p))) =
              length (UplFile (fst (on_add L w p))) \<and>
            r2 \<in> set (UplFile (fst (on_add L (fst (on_add L w p)) p))) \<and>
            (distinct (map doc_id (UplFile w)) \<longrightarrow>
               filter (\<lambda>x. doc_id x = doc_id r)
                 (UplFile (fst (on_add L (fst (on_add L w p)) p))) = [r2]))"
proof -
  let ?fld = "rp_folder (parseUploadsRelPath p)" and ?f = "rp_filename (parseUploadsRelPath p)"
  let ?w1 = "fst (on_add L w p)"
  have res: "snd (on_add L w p) = Resolved"
    and upl: "UplFile ?w1 = upsertById (doc_id r) r (UplFile w)"
    by (simp_all add: on_add_Rec [OF assms] commitUploads_def)
  from processFile_Rec [OF assms] have id: "doc_id r = fUid L ?fld ?f"
    by (auto simp: record_of_def Let_def)
  have mem: "r \<in> set (UplFile ?w1)"
    by (simp add: upl upsertById_mem)
  have new: "UplFile ?w1 = UplFile w @ [r]" if "doc_id r \<notin> doc_id ` set (UplFile w)"
    using that by (simp add: upl upsertById_new)
  have again: "doc_id r2 = doc_id r \<and>
            length (UplFile (fst (on_add L ?w1 p))) = length (UplFile ?w1) \<and>
            r2 \<in> set (UplFile (fst (on_add L ?w1 p))) \<and>
            (distinct (map doc_id (UplFile w)) \<longrightarrow>
               filter (\<lambda>x. doc_id x = doc_id r) (UplFile (fst (on_add L ?w1 p))) = [r2])"
    if r2: "snd (processFile L ?w1 ?fld ?f) = Rec r2" for r2
  proof -
    from processFile_Rec [OF r2] have id2: "doc_id r2 = doc_id r"
      by (auto simp: record_of_def Let_def id)
    have upl2: "UplFile (fst (on_add L ?w1 p)) = upsertById (doc_id r) r2 (UplFile ?w1)"
      by (simp add: on_add_Rec [OF r2] commitUploads_def id2)
    have has: "doc_id r \<in> doc_id ` set (UplFile ?w1)"
      unfolding upl by (rule upsertById_has_id) simp
    have dist: "distinct (map doc_id (UplFile ?w1))" if "distinct (map doc_id (UplFile w))"
      using that unfolding upl by (simp add: upsertById_ids)
    from has have "length (UplFile (fst (on_add L ?w1 p))) = length (UplFile ?w1)"
      by (simp add: upl2 upsertById_length)
    moreover have "r2 \<in> set (UplFile (fst (on_add L ?w1 p)))"
      by (simp add: upl2 upsertById_mem)
    moreover have "filter (\<lambda>x. doc_id x = doc_id r) (UplFile (fst (on_add L ?w1 p))) = [r2]"
      if "distinct (map doc_id (UplFile w))"
      unfolding upl2 using id2 dist [OF that] by (rule upsertById_only)
    ultimately show ?thesis using id2 by blast
  qed
  from res upl id mem new again show ?thesis
    unfolding fUid_def by blast
qed

theorem on_add_upserts_witness:
  "UplFile (fst (on_add sample_libs five_files ''b.txt'')) =
     [\<lparr>doc_id = ''-b.txt'', category = ''binary'', mime = ''text/plain'', extra = None,
       folder = ''f:'', filename = ''b.txt'', basename = ''b'', filesize = 12\<rparr>] \<and>
   UplFile (fst (on_add sample_libs (fst (on_add sample_libs five_files ''b.txt'')) ''b.txt'')) =
     [\<lparr>doc_id = ''-b.txt'', category = ''binary'', mime = ''text/plain'', extra = None,
       folder = ''f:'', filename = ''b.txt'', basename = ''b'', filesize = 12\<rparr>]"
proof -
  let ?r = "\<lparr>doc_id = ''-b.txt'', category = ''binary'', mime = ''text/plain'', extra = None,
             folder = ''f:'', filename = ''b.txt'', basename = ''b'', filesize = 12\<rparr>"
  let ?w1 = "fst (on_add sample_libs five_files ''b.txt'')"
  let ?w2 = "fst (on_add sample_libs ?w1 ''b.txt'')"
  have rel: "parseUploadsRelPath ''b.txt'' = \<lparr>rp_folder = [], rp_filename = ''b.txt''\<rparr>"
    by (simp add: parseUploadsRelPath_def parse_rel)
  have h1: "snd (processFile sample_libs five_files (rp_folder (parseUploadsRelPath ''b.txt''))
              (rp_filename (parseUploadsRelPath ''b.txt''))) = Rec ?r"
    by (simp add: rel run_defs five_files_def parse_root_files)
  have fresh: "doc_id ?r \<notin> doc_id ` set (UplFile five_files)"
    and dist: "distinct (map doc_id (UplFile five_files))"
    by (simp_all add: five_files_def sample_world_def)
  note first = on_add_upserts [OF h1]
  note appended = first [THEN conjunct2, THEN conjunct2, THEN conjunct2, THEN conjunct2,
    THEN conjunct1, rule_format]
  note again = first [THEN conjunct2, THEN conjunct2, THEN conjunct2, THEN conjunct2,
    THEN conjunct2, rule_format]
  from appended [OF fresh] have u1: "UplFile ?w1 = [?r]"
    by (simp add: five_files_def sample_world_def)
  have h2: "snd (processFile sample_libs ?w1 (rp_folder (parseUploadsRelPath ''b.txt''))
              (rp_filename (parseUploadsRelPath ''b.txt''))) = Rec ?r"
    by (simp add: rel on_add_def findByIdAndUpdate_def commitUploads_def run_defs five_files_def
        parse_root_files)
  from again [OF h2] dist have "length (UplFile ?w2) = length (UplFile ?w1)"
    and "filter (\<lambda>x. doc_id x = doc_id ?r) (UplFile ?w2) = [?r]"
    by blast+
  with u1 have "UplFile ?w2 = [?r]"
    by (cases "UplFile ?w2") (auto split: if_splits)
  with u1 show ?thesis by simp
qed

lemma on_add_Undefined:
  assumes "snd (processFile L w (rp_folder (parseUploadsRelPath p))
             (rp_filename (parseUploadsRelPath p))) = JUndefined"
  shows "snd (on_add L w p) = Rejected TypeError"
    and "commits (fst (on_add L w p)) = commits w"
    and "UplFile (fst (on_add L w p)) = UplFile w"
proof -
  obtain w1 v where pf: "processFile L w (rp_folder (parseUploadsRelPath p))
      (rp_filename (parseUploadsRelPath p)) = (w1, v)"
    by (cases "processFile L w (rp_folder (parseUploadsRelPath p)) (rp_filename (parseUploadsRelPath p))")
  with assms have v: "v = JUndefined" by simp
  from processFile_frame(1,3) [of L w "rp_folder (parseUploadsRelPath p)" "rp_filename (parseUploadsRelPath p)"] pf
  have "UplFile w1 = UplFile w" "commits w1 = commits w" by simp_all
  with pf v show "snd (on_add L w p) = Rejected TypeError"
    and "commits (fst (on_add L w p)) = commits w"
    and "UplFile (fst (on_add L w p)) = UplFile w"
    by (simp_all add: on_add_def Let_def)
qed

lemma on_add_False:
  assumes "snd (processFile L w (rp_folder (parseUploadsRelPath p))
             (rp_filename (parseUploadsRelPath p))) = JFalse"
  shows "snd (on_add L w p) =
           (case malformed_upsert L (UplFile w) of Inl err \<Rightarrow> Rejected err | Inr c \<Rightarrow> Resolved)"
    and "UplFile (fst (on_add L w p)) =
           (case malformed_upsert L (UplFile w) of Inl err \<Rightarrow> UplFile w | Inr c \<Rightarrow> c)"
proof -
  obtain w1 v where pf: "processFile L w (rp_folder (parseUploadsRelPath p))
      (rp_filename (parseUploadsRelPath p)) = (w1, v)"
    by (cases "processFile L w (rp_folder (parseUploadsRelPath p)) (rp_filename (parseUploadsRelPath p))")
  with assms have v: "v = JFalse" by simp
  from processFile_frame(1) [of L w "rp_folder (parseUploadsRelPath p)" "rp_filename (parseUploadsRelPath p)"] pf
  have "UplFile w1 = UplFile w" by simp
  with pf v show "snd (on_add L w p) =
           (case malformed_upsert L (UplFile w) of Inl err \<Rightarrow> Rejected err | Inr c \<Rightarrow> Resolved)"
    and "UplFile (fst (on_add L w p)) =
           (case malformed_upsert L (UplFile w) of Inl err \<Rightarrow> UplFile w | Inr c \<Rightarrow> c)"
    by (simp_all add: on_add_def Let_def findByIdAndUpdate_def commitUploads_def split: sum.splits)
qed

text \<open>
  C4. An \<open>add\<close> event for a PNG whose dimensions cannot be read: \<open>processFile\<close>
  catches the error and resolves to \<open>undefined\<close>, the handler then reads \<open>_id\<close> of
  \<open>undefined\<close>, and its promise rejects with a \<open>TypeError\<close>. The collection is
  unchanged, and no commit is made.
\<close>

theorem on_add_error_no_commit:
  "snd (processFile sample_libs five_files [] ''c.png'') = JUndefined \<and>
   snd (on_add sample_libs five_files ''c.png'') = Rejected TypeError \<and>
   commits (fst (on_add sample_libs five_files ''c.png'')) = [] \<and>
   UplFile (fst (on_add sample_libs five_files ''c.png'')) = []"
proof -
  have rel: "parseUploadsRelPath ''c.png'' = \<lparr>rp_folder = [], rp_filename = ''c.png''\<rparr>"
    by (simp add: parseUploadsRelPath_def parse_rel)
  have u: "snd (processFile sample_libs five_files [] ''c.png'') = JUndefined"
    by (simp add: run_defs five_files_def parse_root_files)
  then have "snd (processFile sample_libs five_files (rp_folder (parseUploadsRelPath ''c.png''))
              (rp_filename (parseUploadsRelPath ''c.png''))) = JUndefined"
    by (simp add: rel)
  from on_add_Undefined [OF this] u show ?thesis
    by (simp add: five_files_def sample_world_def)
qed

text \<open>
  C9. The handler of \<open>unlink\<close> appends the commit \<open>git:deleted\<close> with the path and
  changes nothing else: the collections of files and folders and the file system,
  with the thumbnails in it, are as before.
\<close>

theorem on_unlink_only_commits:
  "snd (on_unlink w p) = Resolved \<and>
   fst (on_unlink w p) = w\<lparr>commits := commits w @ [(''git:deleted'', p)]\<rparr> \<and>
   UplFile (fst (on_unlink w p)) = UplFile w \<and>
   UplFolder (fst (on_unlink w p)) = UplFolder w \<and>
   fs (fst (on_unlink w p)) = fs w"
  by (simp add: on_unlink_def commitUploads_def)

subsection \<open>Paths without a directory\<close>

lemma parse_loop_step:
  assumes "path ! i \<noteq> CHR ''/''" and "\<not> i < start"
  shows "\<exists>st'. parse_loop path start (Suc i) st = parse_loop path start i st' \<and>
           startPart st' = startPart st \<and>
           endp st' = (if endp st = -1 then int i + 1 else endp st)"
proof -
  define st1 where "st1 = (if endp st = -1 then st\<lparr>endp := int i + 1, matchedSlash := False\<rparr> else st)"
  define st2 where "st2 = (if path ! i = CHR ''.'' then
                      (if startDot st1 = -1 then st1\<lparr>startDot := int i\<rparr>
                       else if preDotState st1 \<noteq> 1 then st1\<lparr>preDotState := 1\<rparr>
                       else st1)
                    else if startDot st1 \<noteq> -1 then st1\<lparr>preDotState := -1\<rparr>
                    else st1)"
  have "parse_loop path start (Suc i) st = parse_loop path start i st2"
    using assms by (simp only: parse_loop.simps if_False Let_def st1_def st2_def)
  moreover have "startPart st2 = startPart st1" "endp st2 = endp st1"
    by (simp_all add: st2_def)
  moreover have "startPart st1 = startPart st" "endp st1 = (if endp st = -1 then int i + 1 else endp st)"
    by (simp_all add: st1_def)
  ultimately show ?thesis by metis
qed

lemma parse_loop_no_slash:
  assumes "CHR ''/'' \<notin> set path"
  shows "k \<le> length path \<Longrightarrow>
         startPart (parse_loop path start k st) = startPart st \<and>
         endp (parse_loop path start k st) =
           (if endp st = -1 \<and> start < k then int k else endp st)"
proof (induction k arbitrary: st)
  case 0
  then show ?case by simp
next
  case (Suc i)
  then have "path ! i \<in> set path" by simp
  with assms have ns: "path ! i \<noteq> CHR ''/''" by metis
  from Suc.prems have le: "i \<le> length path" by simp
  show ?case
  proof (cases "i < start")
    case True
    then show ?thesis by simp
  next
    case False
    from parse_loop_step [OF ns False, of st] obtain st' where
      st': "parse_loop path start (Suc i) st = parse_loop path start i st'"
        "startPart st' = startPart st"
        "endp st' = (if endp st = -1 then int i + 1 else endp st)"
      by blast
    from Suc.IH [OF le, of st'] False show ?thesis
      unfolding st'(1) by (simp add: st'(2,3))
  qed
qed

lemma path_parse_no_slash:
  assumes "CHR ''/'' \<notin> set p"
  shows "dir (path_parse p) = [] \<and> base (path_parse p) = p"
proof (cases "p = []")
  case True
  then show ?thesis by (simp add: path_parse_def)
next
  case False
  then have "hd p \<in> set p" by simp
  with assms have abs: "hd p \<noteq> CHR ''/''" by metis
  from False have pos: "0 < length p" by simp
  define st where "st = parse_loop p 0 (length p)
     \<lparr>startDot = -1, startPart = 0, endp = -1, matchedSlash = True, preDotState = 0\<rparr>"
  from parse_loop_no_slash [OF assms, of "length p" 0] pos
  have st: "startPart st = 0" "endp st = int (length p)"
    by (simp_all add: st_def)
  have "dir (path_parse p) = []"
    using False abs st by (simp add: path_parse_def Let_def st_def [symmetric])
  moreover have "base (path_parse p) = slice p 0 (int (length p))"
    using False abs st pos by (simp add: path_parse_def Let_def st_def [symmetric])
  ultimately show ?thesis by (simp add: slice_def)
qed

text \<open>
  C10. A path without a slash parses to the empty folder and the path itself as
  the file name, so the handler of \<open>add\<close> makes the call of \<open>processFile\<close> that the
  scan of the root folder makes for this file; the records of the two, in whatever
  worlds, have the same identifier and the folder key \<open>f:\<close>.
\<close>

theorem root_level_path_agrees:
  assumes "CHR ''/'' \<notin> set p"
  shows "parseUploadsRelPath p = \<lparr>rp_folder = [], rp_filename = p\<rparr> \<and>
         processFile L w (rp_folder (parseUploadsRelPath p)) (rp_filename (parseUploadsRelPath p)) =
           processFile L w [] p \<and>
         (\<forall>w' r r'. snd (processFile L w (rp_folder (parseUploadsRelPath p))
                          (rp_filename (parseUploadsRelPath p))) = Rec r \<and>
                     snd (processFile L w' [] p) = Rec r' \<longrightarrow>
            doc_id r = doc_id r' \<and> doc_id r = md5_hex L (''/'' @ p) \<and>
            folder r = folder r' \<and> folder r = ''f:'')"
proof -
  from path_parse_no_slash [OF assms]
  have rel: "parseUploadsRelPath p = \<lparr>rp_folder = [], rp_filename = p\<rparr>"
    by (simp add: parseUploadsRelPath_def Let_def)
  have ids: "doc_id r = doc_id r' \<and> doc_id r = md5_hex L (''/'' @ p) \<and>
        folder r = folder r' \<and> folder r = ''f:''"
    if "snd (processFile L w [] p) = Rec r \<and> snd (processFile L w' [] p) = Rec r'"
    for w' r r'
  proof -
    from that processFile_Rec [of L w "[]" p r] obtain n bs
      where r: "r = record_of L w [] p n bs" by blast
    from that processFile_Rec [of L w' "[]" p r'] obtain n' bs'
      where r': "r' = record_of L w' [] p n' bs'" by blast
    show ?thesis
      unfolding r r' by (simp add: record_of_def fUid_def Let_def)
  qed
  have sel: "rp_folder (parseUploadsRelPath p) = []" "rp_filename (parseUploadsRelPath p) = p"
    by (simp_all add: rel)
  show ?thesis
    unfolding sel using rel ids by blast
qed

theorem root_level_path_agrees_witness:
  "parseUploadsRelPath ''a.png'' = \<lparr>rp_folder = [], rp_filename = ''a.png''\<rparr> \<and>
   (\<exists>r r'. snd (processFile sample_libs five_files (rp_folder (parseUploadsRelPath ''a.png''))
                  (rp_filename (parseUploadsRelPath ''a.png''))) = Rec r \<and>
            snd (processFile sample_libs other_root [] ''a.png'') = Rec r' \<and>
            doc_id r = doc_id r' \<and> folder r = ''f:'' \<and> folder r' = ''f:'')"
proof -
  let ?r1 = "\<lparr>doc_id = ''-a.png'', category = ''image'', mime = ''image/png'',
              extra = Some \<lparr>width = 640, height = 480\<rparr>, folder = ''f:'',
              filename = ''a.png'', basename = ''a'', filesize = 3145727\<rparr>"
  let ?r2 = "\<lparr>doc_id = ''-a.png'', category = ''image'', mime = ''image/png'',
              extra = Some \<lparr>width = 32, height = 32\<rparr>, folder = ''f:'',
              filename = ''a.png'', basename = ''a'', filesize = 2048\<rparr>"
  have ns: "CHR ''/'' \<notin> set ''a.png''" by simp
  note agree = root_level_path_agrees [OF ns, of sample_libs five_files]
  note rel = agree [THEN conjunct1]
  note same_call = agree [THEN conjunct2, THEN conjunct1]
  note same_ids = agree [THEN conjunct2, THEN conjunct2, rule_format, of ?r1 other_root ?r2]
  have a: "snd (processFile sample_libs five_files [] ''a.png'') = Rec ?r1"
    by (simp add: run_defs five_files_def parse_root_files parse_thumbs)
  have b: "snd (processFile sample_libs other_root [] ''a.png'') = Rec ?r2"
    by (simp add: run_defs other_root_def parse_root_files parse_thumbs)
  have a': "snd (processFile sample_libs five_files (rp_folder (parseUploadsRelPath ''a.png''))
                  (rp_filename (parseUploadsRelPath ''a.png''))) = Rec ?r1"
    unfolding same_call by (rule a)
  from same_ids [OF conjI [OF a' b]] rel a' b show ?thesis
    by (intro conjI exI [of _ ?r1] exI [of _ ?r2]) simp_all
qed

subsection \<open>The scan of a folder\<close>

lemma scanFile_snd: "snd (scanFile L fldName s f) = Inr ()"
  by (simp add: scanFile_def split: prod.splits result.splits)

lemma scanFile_acc:
  "snd (fst (scanFile L fldName (w, allFiles) f)) =
     allFiles @ records [snd (processFile L w fldName f)]"
  by (simp add: scanFile_def split: prod.splits result.splits)

lemma scanFile_world:
  "fst (fst (scanFile L fldName (w, allFiles) f)) = fst (fst (scanFile L fldName (w, []) f))"
  by (simp add: scanFile_def split: prod.splits result.splits)

lemma promise_map_scanFile:
  "promise_map (scanFile L fldName) (w, allFiles) fList = (s', r) \<Longrightarrow>
     r = Inr () \<and> snd s' = allFiles @ records (file_results L w fldName fList)"
proof (induction fList arbitrary: w allFiles)
  case Nil
  then show ?case by auto
next
  case (Cons f rest)
  obtain w1 acc1 r1 where step: "scanFile L fldName (w, allFiles) f = ((w1, acc1), r1)"
    by (metis surj_pair)
  from scanFile_snd [of L fldName "(w, allFiles)" f] step have r1: "r1 = Inr ()" by simp
  from scanFile_acc [of L fldName w allFiles f] step
  have acc1: "acc1 = allFiles @ records [snd (processFile L w fldName f)]" by simp
  from scanFile_world [of L fldName w allFiles f] step
  have w1: "w1 = fst (fst (scanFile L fldName (w, []) f))" by simp
  from Cons.prems step r1 have "promise_map (scanFile L fldName) (w1, acc1) rest = (s', r)"
    by simp
  from Cons.IH [OF this] show ?case
    by (simp add: acc1 w1 [symmetric]) (cases "snd (processFile L w fldName f)"; simp)
qed

lemma file_results_length: "length (file_results L w fldName fList) = length fList"
  by (induction fList arbitrary: w) simp_all

lemma processFile_error:
  assumes "snd (processFile_try L (info (fldName @ '' - processing file: '' @ f) w) fldName f) = Inl err"
  shows "snd (processFile L w fldName f) = JUndefined"
    and "logs (fst (processFile L w fldName f)) =
           logs (fst (processFile_try L (info (fldName @ '' - processing file: '' @ f) w) fldName f))
           @ [LError ''Error processing file:'' (Some err)]"
  using assms by (simp_all add: processFile_snd processFile_fst)

subsection \<open>The scan as a whole\<close>

lemma replaceFiles_UplFile: "UplFile (replaceFiles w allFiles) = allFiles"
  by (simp add: replaceFiles_def Let_def remove_all_def insertMany_def)

lemma replaceFiles_logs: "set (logs w) \<subseteq> set (logs (replaceFiles w allFiles))"
  by (auto simp: replaceFiles_def Let_def)

lemma watch_fields:
  "UplFile (watch w) = UplFile w" "logs (watch w) = logs w" "watcher (watch w) \<noteq> None"
  by (simp_all add: watch_def)

lemma scan_try_listed:
  assumes "snd (listFolders L w ls) = Inr folderNames"
  shows "snd (scan_try L w ls) = Inr ()"
    and "UplFile (fst (scan_try L w ls)) =
           snd (fst (traverse L (replaceFolders (fst (listFolders L w ls)) folderNames) folderNames))"
    and "watcher (fst (scan_try L w ls)) \<noteq> None"
    and "snd (traverse L (replaceFolders (fst (listFolders L w ls)) folderNames) folderNames) = Inl err
         \<Longrightarrow> LError ''Error during initial scan:'' (Some err) \<in> set (logs (fst (scan_try L w ls)))"
proof -
  obtain w1 where lf: "listFolders L w ls = (w1, Inr folderNames)"
    using assms by (cases "listFolders L w ls") simp
  obtain w2 allFiles r where tr: "traverse L (replaceFolders w1 folderNames) folderNames = ((w2, allFiles), r)"
    by (metis surj_pair)
  show "snd (scan_try L w ls) = Inr ()"
    by (simp add: scan_try_def lf tr Let_def)
  show "UplFile (fst (scan_try L w ls)) =
           snd (fst (traverse L (replaceFolders (fst (listFolders L w ls)) folderNames) folderNames))"
    by (simp add: scan_try_def lf tr Let_def watch_fields replaceFiles_UplFile)
  show "watcher (fst (scan_try L w ls)) \<noteq> None"
    by (simp add: scan_try_def lf tr Let_def watch_fields)
  show "LError ''Error during initial scan:'' (Some err) \<in> set (logs (fst (scan_try L w ls)))"
    if "snd (traverse L (replaceFolders (fst (listFolders L w ls)) folderNames) folderNames) = Inl err"
  proof -
    from that have r: "r = Inl err" by (simp add: lf tr)
    have "LError ''Error during initial scan:'' (Some err)
            \<in> set (logs (log_error ''Error during initial scan:'' (Some err) w2))"
      by simp
    with replaceFiles_logs have "LError ''Error during initial scan:'' (Some err)
            \<in> set (logs (replaceFiles (log_error ''Error during initial scan:'' (Some err) w2) allFiles))"
      by blast
    then show ?thesis
      by (simp add: scan_try_def lf tr r Let_def watch_fields)
  qed
qed

lemma initialScan_listed:
  assumes "readdirAsync (info ''Reading uploads directory.'' w) (uploadsPath w) = Inr ls"
    and "snd (listFolders L (info ''Reading uploads directory.'' w) ls) = Inr folderNames"
  shows "initialScan L w = (fst (scan_try L (info ''Reading uploads directory.'' w) ls), Resolved)"
proof -
  obtain w' r where st: "scan_try L (info ''Reading uploads directory.'' w) ls = (w', r)"
    by (cases "scan_try L (info ''Reading uploads directory.'' w) ls")
  from scan_try_listed(1) [OF assms(2)] st have "r = Inr ()" by simp
  with assms(1) st show ?thesis
    by (simp add: initialScan_def Let_def)
qed

lemma initialScan_starts_watcher:
  assumes "readdirAsync (info ''Reading uploads directory.'' w) (uploadsPath w) = Inr ls"
    and "snd (listFolders L (info ''Reading uploads directory.'' w) ls) = Inr folderNames"
  shows "watcher (fst (initialScan L w)) \<noteq> None"
  using scan_try_listed(3) [OF assms(2)]
  by (simp add: initialScan_listed [OF assms])

lemma initialScan_root_failure:
  assumes "readdirAsync (info ''Reading uploads directory.'' w) (uploadsPath w) = Inl err"
  shows "initialScan L w = (info ''Reading uploads directory.'' w, Rejected err)"
  using assms by (simp add: initialScan_def Let_def)

lemma initialScan_stat_failure:
  assumes "readdirAsync (info ''Reading uploads directory.'' w) (uploadsPath w) = Inr ls"
    and "snd (listFolders L (info ''Reading uploads directory.'' w) ls) = Inl err"
  shows "snd (initialScan L w) = Resolved"
    and "watcher (fst (initialScan L w)) = watcher w"
    and "LError ''Failed during initial scan of uploads: '' (Some err) \<in> set (logs (fst (initialScan L w)))"
proof -
  obtain w1 where lf: "listFolders L (info ''Reading uploads directory.'' w) ls = (w1, Inl err)"
    using assms(2) by (cases "listFolders L (info ''Reading uploads directory.'' w) ls") simp
  then have w1: "watcher w1 = watcher w"
    by (auto simp: listFolders_def Let_def split: sum.splits)
  from assms(1) lf show "snd (initialScan L w) = Resolved"
    and "LError ''Failed during initial scan of uploads: '' (Some err) \<in> set (logs (fst (initialScan L w)))"
    by (simp_all add: initialScan_def scan_try_def Let_def)
  from assms(1) lf w1 show "watcher (fst (initialScan L w)) = watcher w"
    by (simp add: initialScan_def scan_try_def Let_def)
qed

subsection \<open>Errors during the scan\<close>

text \<open>
  C5. An error inside \<open>processFile\<close> is caught and logged, the call resolves to
  \<open>undefined\<close>, and the scan adds no record for the file. The scan of a listing
  never rejects: it runs \<open>processFile\<close> on every file and accumulates exactly the
  records among the results, whatever the other results are.
\<close>

theorem scan_survives_file_errors:
  "snd (promise_map (scanFile L fldName) (w, allFiles) fList) = Inr () \<and>
   snd (fst (promise_map (scanFile L fldName) (w, allFiles) fList)) =
     allFiles @ records (file_results L w fldName fList) \<and>
   length (file_results L w fldName fList) = length fList \<and>
   (snd (processFile_try L (info (fldName @ '' - processing file: '' @ f) w) fldName f) = Inl err \<longrightarrow>
      snd (processFile L w fldName f) = JUndefined \<and>
      logs (fst (processFile L w fldName f)) =
        logs (fst (processFile_try L (info (fldName @ '' - processing file: '' @ f) w) fldName f))
        @ [LError ''Error processing file:'' (Some err)] \<and>
      snd (fst (scanFile L fldName (w, allFiles) f)) = allFiles)"
proof -
  obtain s' r where pm: "promise_map (scanFile L fldName) (w, allFiles) fList = (s', r)"
    by (cases "promise_map (scanFile L fldName) (w, allFiles) fList")
  from promise_map_scanFile [OF pm] pm
  have "snd (promise_map (scanFile L fldName) (w, allFiles) fList) = Inr ()"
    and "snd (fst (promise_map (scanFile L fldName) (w, allFiles) fList)) =
           allFiles @ records (file_results L w fldName fList)"
    by simp_all
  moreover have "snd (processFile L w fldName f) = JUndefined \<and>
      logs (fst (processFile L w fldName f)) =
        logs (fst (processFile_try L (info (fldName @ '' - processing file: '' @ f) w) fldName f))
        @ [LError ''Error processing file:'' (Some err)] \<and>
      snd (fst (scanFile L fldName (w, allFiles) f)) = allFiles"
    if "snd (processFile_try L (info (fldName @ '' - processing file: '' @ f) w) fldName f) = Inl err"
    using processFile_error [OF that] by (simp add: scanFile_acc)
  ultimately show ?thesis
    using file_results_length [of L w fldName fList] by blast
qed

lemma five_files_results:
  "file_results sample_libs five_files [] [''a.png'', ''b.txt'', ''c.png'', ''d.png'', ''e.txt''] =
     [Rec \<lparr>doc_id = ''-a.png'', category = ''image'', mime = ''image/png'',
            extra = Some \<lparr>width = 640, height = 480\<rparr>, folder = ''f:'',
            filename = ''a.png'', basename = ''a'', filesize = 3145727\<rparr>,
      Rec \<lparr>doc_id = ''-b.txt'', category = ''binary'', mime = ''text/plain'', extra = None,
            folder = ''f:'', filename = ''b.txt'', basename = ''b'', filesize = 12\<rparr>,
      JUndefined,
      Rec \<lparr>doc_id = ''-d.png'', category = ''binary'', mime = ''image/png'', extra = None,
            folder = ''f:'', filename = ''d.png'', basename = ''d'', filesize = 3145728\<rparr>,
      Rec \<lparr>doc_id = ''-e.txt'', category = ''binary'', mime = ''text/plain'', extra = None,
            folder = ''f:'', filename = ''e.txt'', basename = ''e'', filesize = 7\<rparr>]"
  by (simp add: scanFile_def run_defs five_files_def parse_root_files parse_thumbs)

lemma five_files_scan:
  "snd (initialScan sample_libs five_files) = Resolved \<and>
   map filename (UplFile (fst (initialScan sample_libs five_files))) =
     [''a.png'', ''b.txt'', ''d.png'', ''e.txt'']"
proof -
  let ?w0 = "info ''Reading uploads directory.'' five_files"
  let ?ls = "[''a.png'', ''b.txt'', ''c.png'', ''d.png'', ''e.txt'']"
  have h1: "readdirAsync ?w0 (uploadsPath five_files) = Inr ?ls"
    by (simp add: readdirAsync_def five_files_def sample_world_def)
  have h2: "snd (listFolders sample_libs ?w0 ?ls) = Inr [[]]"
    by (simp add: listFolders_def run_defs five_files_def)
  define W1 where "W1 = replaceFolders (fst (listFolders sample_libs ?w0 ?ls)) [[]]"
  have w1: "fs W1 = fs five_files" "uploadsPath W1 = ''/srv/uploads''"
    "uploadsThumbsPath W1 = ''/srv/thumbs''" "jimp W1 = jimp five_files"
    unfolding W1_def
    by (simp_all add: listFolders_def replaceFolders_def run_defs five_files_def)
  have "map filename (snd (fst (traverse sample_libs W1 [[]]))) =
          [''a.png'', ''b.txt'', ''d.png'', ''e.txt'']"
    by (simp add: traverse_def scanFolder_def scanFile_def w1 run_defs five_files_def
        parse_root_files parse_thumbs)
  then show ?thesis
    unfolding W1_def
    by (simp add: initialScan_listed [OF h1 h2] scan_try_listed(2) [OF h2])
qed

theorem scan_survives_file_errors_witness:
  "snd (processFile sample_libs five_files [] ''c.png'') = JUndefined \<and>
   map filename (snd (fst (promise_map (scanFile sample_libs []) (five_files, [])
     [''a.png'', ''b.txt'', ''c.png'', ''d.png'', ''e.txt'']))) =
     [''a.png'', ''b.txt'', ''d.png'', ''e.txt''] \<and>
   map filename (UplFile (fst (initialScan sample_libs five_files))) =
     [''a.png'', ''b.txt'', ''d.png'', ''e.txt'']"
proof -
  have err: "snd (processFile_try sample_libs (info ([] @ '' - processing file: '' @ ''c.png'') five_files)
               [] ''c.png'') = Inl (ImageSizeError ''/srv/uploads/c.png'')"
    by (simp add: run_defs five_files_def parse_root_files)
  note facts = scan_survives_file_errors [of sample_libs "[]" five_files "[]"
    "[''a.png'', ''b.txt'', ''c.png'', ''d.png'', ''e.txt'']" "''c.png''"
    "ImageSizeError ''/srv/uploads/c.png''"]
  note acc = facts [THEN conjunct2, THEN conjunct1]
  note caught = facts [THEN conjunct2, THEN conjunct2, THEN conjunct2, rule_format, OF err]
  from caught have "snd (processFile sample_libs five_files [] ''c.png'') = JUndefined"
    by (rule conjunct1)
  moreover have "map filename (snd (fst (promise_map (scanFile sample_libs []) (five_files, [])
     [''a.png'', ''b.txt'', ''c.png'', ''d.png'', ''e.txt'']))) =
     [''a.png'', ''b.txt'', ''d.png'', ''e.txt'']"
    unfolding acc five_files_results by simp
  ultimately show ?thesis
    using five_files_scan by blast
qed



text \<open>
  C7. An installation whose uploads directory is missing: the listing of the root
  rejects before the \<open>try\<close> block is entered, so the scan rejects with that error.
  Nothing is logged beyond the first line, and the watcher is not started.
\<close>

theorem initialScan_root_listing_failure:
  "snd (initialScan sample_libs no_root) = Rejected (FsError ''/srv/uploads'') \<and>
   logs (fst (initialScan sample_libs no_root)) = [LInfo ''Reading uploads directory.''] \<and>
   watcher (fst (initialScan sample_libs no_root)) = None"
proof -
  have "readdirAsync (info ''Reading uploads directory.'' no_root) (uploadsPath no_root) =
          Inl (FsError ''/srv/uploads'')"
    by (simp add: readdirAsync_def no_root_def sample_world_def)
  from initialScan_root_failure [OF this] show ?thesis
    by (simp add: no_root_def sample_world_def)
qed

subsection \<open>Thumbnails\<close>

lemma generate_block_exists:
  assumes "fs w s = Some (RegFile img)"
  shows "generate_block w fldName f p c s mData =
           (info (fldName @ '' - generating thumbnail: '' @ f) w, Inr (Rec mData))"
  using assms by (simp add: generate_block_def statAsync_def Let_def)

lemma generate_block_thumb:
  assumes "snd (generate_block w fldName f p c s mData) = Inr v"
  shows "\<exists>img. fs (fst (generate_block w fldName f p c s mData)) s = Some (RegFile img)"
  using assms
  unfolding generate_block_def statAsync_def ensureDirAsync_def generateThumbnail_def Let_def
  by (auto split: option.splits node.splits if_splits)

lemma generate_block_regular:
  assumes "fs w q = Some (RegFile n)" and "snd (generate_block w fldName f p c s mData) = Inr v"
  shows "fs (fst (generate_block w fldName f p c s mData)) q = Some (RegFile n)"
  using assms
  unfolding generate_block_def statAsync_def ensureDirAsync_def generateThumbnail_def Let_def
  by (auto split: option.splits node.splits if_splits)

lemma processFile_image_run:
  assumes "snd (processFile L w fldName f) = Rec r" and "category r = ''image''"
  shows "\<exists>n bs d img.
           fs w (fPath L w fldName f) = Some (RegFile n) \<and> f_head n = Some bs \<and>
           f_dims n = Some d \<and> f_size n < 3145728 \<and> mime r \<in> set image_mimes \<and>
           r = record_of L w fldName f n bs \<and>
           fs (fst (processFile L w fldName f)) (fPath L w fldName f) = Some (RegFile n) \<and>
           fs (fst (processFile L w fldName f)) (thumbPath L w fldName f) = Some (RegFile img) \<and>
           uploadsPath (fst (processFile L w fldName f)) = uploadsPath w \<and>
           uploadsThumbsPath (fst (processFile L w fldName f)) = uploadsThumbsPath w"
proof -
  define w0 where "w0 = info (fldName @ '' - processing file: '' @ f) w"
  have f0: "fs w0 = fs w" "uploadsPath w0 = uploadsPath w"
    "uploadsThumbsPath w0 = uploadsThumbsPath w"
    by (simp_all add: w0_def)
  from processFile_Rec [OF assms(1)] assms(2) obtain n bs d where
    n: "fs w (fPath L w fldName f) = Some (RegFile n)" "f_head n = Some bs"
    and r: "r = record_of L w fldName f n bs" and d: "f_dims n = Some d"
    by auto
  from r assms(2) have img: "f_size n < 3145728" "mime r \<in> set image_mimes"
    by (auto simp: record_of_def Let_def split: if_splits)
  have r0: "record_of L w0 fldName f n bs = r"
    unfolding r by (rule record_of_cong) (rule f0(2))
  have t0: "thumbPath L w0 fldName f = thumbPath L w fldName f"
    by (rule thumbPath_cong) (rule f0(3))
  have n0: "fs w0 (fPath L w0 fldName f) = Some (RegFile n)"
    using n(1) by (simp add: f0)
  define G where "G = generate_block w0 fldName f (fPath L w0 fldName f)
    (path_parse (path_join L (uploadsThumbsPath w0) (fUid L fldName f @ ''.png'')))
    (thumbPath L w0 fldName f) r"
  have run: "processFile_try L w0 fldName f = G"
    using processFile_try_regular [OF n0 n(2)] img d
    by (simp add: Let_def r0 G_def)
  have pf: "processFile L w fldName f =
          (case G of (w', Inl err) \<Rightarrow> (log_error ''Error processing file:'' (Some err) w', JUndefined)
                   | (w', Inr v) \<Rightarrow> (w', v))"
    unfolding processFile_def w0_def [symmetric] run ..
  from assms(1) obtain v where v: "snd G = Inr v"
    unfolding pf by (cases G) (auto split: sum.splits)
  have w1: "fst (processFile L w fldName f) = fst G"
    unfolding pf using v by (cases G) auto
  from generate_block_thumb [OF v [unfolded G_def]] obtain img where
    "fs (fst G) (thumbPath L w fldName f) = Some (RegFile img)"
    unfolding G_def t0 by blast
  moreover from generate_block_regular [OF n0 v [unfolded G_def]]
  have "fs (fst G) (fPath L w fldName f) = Some (RegFile n)"
    unfolding G_def by (simp add: f0)
  moreover have "uploadsPath (fst G) = uploadsPath w" "uploadsThumbsPath (fst G) = uploadsThumbsPath w"
    unfolding G_def by (simp_all add: generate_block_frame f0)
  ultimately show ?thesis
    using n r d img unfolding w1 by blast
qed

lemma processFile_image_again:
  assumes "fs w (fPath L w fldName f) = Some (RegFile n)" and "f_head n = Some bs"
    and "f_dims n = Some d" and "f_size n < 3145728"
    and "mime (record_of L w fldName f n bs) \<in> set image_mimes"
    and "fs w (thumbPath L w fldName f) = Some (RegFile img)"
  shows "processFile L w fldName f =
           (info (fldName @ '' - generating thumbnail: '' @ f)
              (info (fldName @ '' - processing file: '' @ f) w),
            Rec (record_of L w fldName f n bs))"
proof -
  define w0 where "w0 = info (fldName @ '' - processing file: '' @ f) w"
  have f0: "fs w0 = fs w" "uploadsPath w0 = uploadsPath w"
    "uploadsThumbsPath w0 = uploadsThumbsPath w"
    by (simp_all add: w0_def)
  have r0: "record_of L w0 fldName f n bs = record_of L w fldName f n bs"
    by (rule record_of_cong) (rule f0(2))
  have n0: "fs w0 (fPath L w0 fldName f) = Some (RegFile n)"
    using assms(1) by (simp add: f0)
  have t0: "fs w0 (thumbPath L w0 fldName f) = Some (RegFile img)"
    using assms(6) by (simp add: f0 thumbPath_cong [OF f0(3)])
  define g where "g = info (fldName @ '' - generating thumbnail: '' @ f) w0"
  have gb: "generate_block w0 fldName f p c (thumbPath L w0 fldName f) mData = (g, Inr (Rec mData))"
    for p c mData
    unfolding g_def by (rule generate_block_exists [OF t0])
  have run: "processFile_try L w0 fldName f = (g, Inr (Rec (record_of L w fldName f n bs)))"
    using processFile_try_regular [OF n0 assms(2)] assms(3,4,5)
    by (simp add: Let_def gb r0)
  show ?thesis
    unfolding processFile_def w0_def [symmetric] run g_def [symmetric] by simp
qed

text \<open>
  C8. When \<open>processFile\<close> has returned the record of an image, the record carries
  the dimensions, the file is as it was, and the thumbnail is a regular file at
  its cache path. In every world where the file is the same and the thumbnail is
  there, and so in the world the first call left, \<open>processFile\<close> returns the same
  record, does not call \<open>generateThumbnail\<close> and writes no file.
\<close>

theorem thumbnail_idempotent:
  assumes "snd (processFile L w fldName f) = Rec r" and "category r = ''image''"
  shows "(\<exists>d. extra r = Some d) \<and>
         fs (fst (processFile L w fldName f)) (fPath L w fldName f) = fs w (fPath L w fldName f) \<and>
         (\<exists>img. fs (fst (processFile L w fldName f)) (thumbPath L w fldName f) = Some (RegFile img)) \<and>
         (\<forall>w2. uploadsPath w2 = uploadsPath w \<and> uploadsThumbsPath w2 = uploadsThumbsPath w \<and>
               fs w2 (fPath L w fldName f) = fs w (fPath L w fldName f) \<and>
               (\<exists>img. fs w2 (thumbPath L w fldName f) = Some (RegFile img)) \<longrightarrow>
               snd (processFile L w2 fldName f) = Rec r \<and>
               thumb_calls (fst (processFile L w2 fldName f)) = thumb_calls w2 \<and>
               fs (fst (processFile L w2 fldName f)) = fs w2) \<and>
         snd (processFile L (fst (processFile L w fldName f)) fldName f) = Rec r \<and>
         thumb_calls (fst (processFile L (fst (processFile L w fldName f)) fldName f)) =
           thumb_calls (fst (processFile L w fldName f))"
proof -
  let ?w1 = "fst (processFile L w fldName f)"
  from processFile_image_run [OF assms] obtain n bs d img where
    n: "fs w (fPath L w fldName f) = Some (RegFile n)"
      "f_head n = Some bs" "f_dims n = Some d" "f_size n < 3145728" "mime r \<in> set image_mimes"
    and r: "r = record_of L w fldName f n bs"
    and w1: "fs ?w1 (fPath L w fldName f) = Some (RegFile n)"
      "fs ?w1 (thumbPath L w fldName f) = Some (RegFile img)"
      "uploadsPath ?w1 = uploadsPath w" "uploadsThumbsPath ?w1 = uploadsThumbsPath w"
    by blast
  have again: "snd (processFile L w2 fldName f) = Rec r \<and>
               thumb_calls (fst (processFile L w2 fldName f)) = thumb_calls w2 \<and>
               fs (fst (processFile L w2 fldName f)) = fs w2"
    if same: "uploadsPath w2 = uploadsPath w" "uploadsThumbsPath w2 = uploadsThumbsPath w"
      "fs w2 (fPath L w fldName f) = fs w (fPath L w fldName f)"
      and thumb: "fs w2 (thumbPath L w fldName f) = Some (RegFile img2)"
    for w2 img2
  proof -
    have r2: "record_of L w2 fldName f n bs = r"
      unfolding r by (rule record_of_cong) (rule same(1))
    have t2: "thumbPath L w2 fldName f = thumbPath L w fldName f"
      by (rule thumbPath_cong) (rule same(2))
    have "processFile L w2 fldName f =
           (info (fldName @ '' - generating thumbnail: '' @ f)
              (info (fldName @ '' - processing file: '' @ f) w2), Rec r)"
      using processFile_image_again [of w2 L fldName f n bs d img2] n same thumb
      by (simp add: r2 t2)
    then show ?thesis by simp
  qed
  from r n have "extra r = Some d"
    by (simp add: record_of_def Let_def)
  moreover from n(1) w1(1) have "fs ?w1 (fPath L w fldName f) = fs w (fPath L w fldName f)"
    by simp
  moreover from again [OF w1(3,4) this w1(2)]
  have "snd (processFile L ?w1 fldName f) = Rec r"
    "thumb_calls (fst (processFile L ?w1 fldName f)) = thumb_calls ?w1"
    by simp_all
  ultimately show ?thesis
    using w1(2) again by blast
qed

theorem thumbnail_idempotent_witness:
  "thumb_calls five_files = [] \<and>
   thumb_calls (fst (processFile sample_libs five_files [] ''a.png'')) =
     [(''/srv/uploads/a.png'', ''/srv/thumbs/-a.png.png'')] \<and>
   snd (processFile sample_libs (fst (processFile sample_libs five_files [] ''a.png'')) [] ''a.png'') =
     snd (processFile sample_libs five_files [] ''a.png'') \<and>
   thumb_calls (fst (processFile sample_libs
       (fst (processFile sample_libs five_files [] ''a.png'')) [] ''a.png'')) =
     [(''/srv/uploads/a.png'', ''/srv/thumbs/-a.png.png'')]"
proof -
  let ?ra = "\<lparr>doc_id = ''-a.png'', category = ''image'', mime = ''image/png'',
              extra = Some \<lparr>width = 640, height = 480\<rparr>, folder = ''f:'',
              filename = ''a.png'', basename = ''a'', filesize = 3145727\<rparr>"
  let ?w1 = "fst (processFile sample_libs five_files [] ''a.png'')"
  have a: "snd (processFile sample_libs five_files [] ''a.png'') = Rec ?ra"
    by (simp add: run_defs five_files_def parse_root_files parse_thumbs)
  have c: "category ?ra = ''image''" by simp
  have none: "thumb_calls five_files = []"
    by (simp add: five_files_def sample_world_def)
  have once: "thumb_calls ?w1 = [(''/srv/uploads/a.png'', ''/srv/thumbs/-a.png.png'')]"
    by (simp add: run_defs five_files_def parse_root_files parse_thumbs)
  have paths: "uploadsPath ?w1 = uploadsPath five_files"
    "uploadsThumbsPath ?w1 = uploadsThumbsPath five_files"
    by (simp_all add: processFile_frame)
  note facts = thumbnail_idempotent [OF a c]
  note unchanged = facts [THEN conjunct2, THEN conjunct1]
  note thumb = facts [THEN conjunct2, THEN conjunct2, THEN conjunct1]
  note later = facts [THEN conjunct2, THEN conjunct2, THEN conjunct2, THEN conjunct1, rule_format,
    of ?w1, OF conjI [OF paths(1) conjI [OF paths(2) conjI [OF unchanged thumb]]]]
  from later have "snd (processFile sample_libs ?w1 [] ''a.png'') = Rec ?ra"
    and "thumb_calls (fst (processFile sample_libs ?w1 [] ''a.png'')) = thumb_calls ?w1"
    by blast+
  with none once a show ?thesis by simp
qed

end
